theory Spec2Isabelle
  imports Complex_Main
begin

section \<open>JavaScript values\<close>

text \<open>
  Values that travel through \<^verbatim>\<open>JSON.stringify\<close> and \<^verbatim>\<open>res.json\<close>. Numbers are
  integers (day counts, flags). A property that may hold
  \<^verbatim>\<open>undefined\<close> is a \<open>json option\<close>; \<^verbatim>\<open>null\<close> is \<open>JNull\<close>.
\<close>

datatype json =
    JNull
  | JBool bool
  | JNum int
  | JStr string
  | JArr "json list"
  | JObj "(string \<times> json) list"

text \<open>An object literal; \<^verbatim>\<open>JSON.stringify\<close> leaves out a property whose value is \<^verbatim>\<open>undefined\<close>.\<close>

fun obj_props :: "(string \<times> json option) list \<Rightarrow> (string \<times> json) list" where
  "obj_props [] = []"
| "obj_props ((k, None) # kvs) = obj_props kvs"
| "obj_props ((k, Some v) # kvs) = (k, v) # obj_props kvs"

definition obj :: "(string \<times> json option) list \<Rightarrow> json" where
  "obj kvs = JObj (obj_props kvs)"

text \<open>Property read \<^verbatim>\<open>o.k\<close> on a value (\<open>None\<close> is \<^verbatim>\<open>undefined\<close>).\<close>

fun field :: "json \<Rightarrow> string \<Rightarrow> json option" where
  "field (JObj kvs) k = map_of kvs k"
| "field _ k = None"

text \<open>Truthiness of a string that may be \<^verbatim>\<open>undefined\<close> or \<^verbatim>\<open>null\<close>, and of a JSON value.\<close>

fun truthy :: "string option \<Rightarrow> bool" where
  "truthy None = False"
| "truthy (Some s) = (s \<noteq> [])"

fun truthy_json :: "json \<Rightarrow> bool" where
  "truthy_json JNull = False"
| "truthy_json (JBool b) = b"
| "truthy_json (JNum n) = (n \<noteq> 0)"
| "truthy_json (JStr s) = (s \<noteq> [])"
| "truthy_json (JArr xs) = True"
| "truthy_json (JObj kvs) = True"

text \<open>\<^verbatim>\<open>a || b\<close> on strings that may be missing; a string or \<^verbatim>\<open>null\<close> as a JSON value.\<close>

definition js_or :: "string option \<Rightarrow> string option \<Rightarrow> string option" where
  "js_or a b = (if truthy a then a else b)"

fun opt_json :: "string option \<Rightarrow> json" where
  "opt_json None = JNull"
| "opt_json (Some s) = JStr s"

text \<open>
  A day count as \<^verbatim>\<open>Number(...)\<close> or the request body delivers it: an integer, or
  \<^verbatim>\<open>NaN\<close> (a \<^verbatim>\<open>?days=\<close> that is no number). \<^verbatim>\<open>JSON.stringify\<close> prints \<^verbatim>\<open>NaN\<close> as
  \<^verbatim>\<open>null\<close>.
\<close>

datatype jsnum =
    Num int
  | NaN

fun num_json :: "jsnum \<Rightarrow> json" where
  "num_json (Num n) = JNum n"
| "num_json NaN = JNull"

text \<open>\<^verbatim>\<open>String.prototype.includes\<close> and ASCII lower-casing (for the \<^verbatim>\<open>/i\<close> flag).\<close>

fun starts_with :: "string \<Rightarrow> string \<Rightarrow> bool" where
  "starts_with s [] = True"
| "starts_with [] (c # cs) = False"
| "starts_with (x # xs) (c # cs) = (x = c \<and> starts_with xs cs)"

fun str_includes :: "string \<Rightarrow> string \<Rightarrow> bool" where
  "str_includes [] t = (t = [])"
| "str_includes (x # xs) t = (starts_with (x # xs) t \<or> str_includes xs t)"

definition lower :: "char \<Rightarrow> char" where
  "lower c = (let n = (of_char c :: nat) in if 65 \<le> n \<and> n \<le> 90 then char_of (n + 32) else c)"

text \<open>\<^verbatim>\<open>s.replace(/\/?$/, '/')\<close>: the string ends in exactly the slash it had, or gains one.\<close>

definition with_slash :: "string \<Rightarrow> string" where
  "with_slash s = (if s \<noteq> [] \<and> last s = CHR ''/'' then s else s @ ''/'')"

text \<open>A thrown \<^verbatim>\<open>Error\<close> (name and message) and \<^verbatim>\<open>String(e)\<close>.\<close>

datatype js_exn = JsError string string

fun String_of :: "js_exn \<Rightarrow> string" where
  "String_of (JsError n m) = (if n = [] then m else if m = [] then n else n @ '': '' @ m)"

section \<open>Environment\<close>

text \<open>
  \<^verbatim>\<open>process.env\<close>. A variable is \<open>None\<close> when unset. The two rate bounds are kept
  as the integer \<^verbatim>\<open>Number(...)\<close> reads from the variable; \<open>None\<close> stands for unset
  or empty, where the \<^verbatim>\<open>||\<close> default applies.
\<close>

record env =
  RATE_MIN_MS :: "int option"
  RATE_MAX_MS :: "int option"
  LINKEDIN_EMAIL :: "string option"
  LINKEDIN_PASSWORD :: "string option"
  USER_AGENT :: "string option"
  PROXY_USERNAME :: "string option"
  PROXY_PASSWORD :: "string option"

section \<open>server.js: throttle\<close>

text \<open>
  What one call of \<^verbatim>\<open>throttle()\<close> sees of the outside: \<^verbatim>\<open>Date.now()\<close> when it
  computes \<^verbatim>\<open>elapsed\<close>, the value of \<^verbatim>\<open>Math.random()\<close> (in \<open>[0, 1)\<close>, taken as
  a real), and by how many milliseconds the clock read on the last line is past
  the requested wake-up.
\<close>

record tick =
  t_now :: int
  t_rnd :: real
  t_late :: nat

definition rate_min :: "env \<Rightarrow> int" where
  "rate_min e = (case RATE_MIN_MS e of None \<Rightarrow> 1200 | Some n \<Rightarrow> n)"

definition rate_max :: "env \<Rightarrow> int" where
  "rate_max e = (case RATE_MAX_MS e of None \<Rightarrow> 2500 | Some n \<Rightarrow> n)"

definition wait_ms :: "env \<Rightarrow> real \<Rightarrow> int" where
  "wait_ms e r = \<lfloor>r * real_of_int (rate_max e - rate_min e + 1)\<rfloor> + rate_min e"

text \<open>
  The delay \<^verbatim>\<open>setTimeout\<close> really uses: Node takes a delay below 1 or above
  2147483647 as 1 ms.
\<close>

definition timer_ms :: "int \<Rightarrow> int" where
  "timer_ms ms = (if ms < 1 \<or> 2147483647 < ms then 1 else ms)"

text \<open>
  One call. The value of \<^verbatim>\<open>lastRun\<close> the call reads on its fourth line goes in;
  the value it writes on its last line, after the sleep, comes out.
\<close>

definition throttle :: "env \<Rightarrow> tick \<Rightarrow> int \<Rightarrow> int" where
  "throttle e tk lastRun =
     (let wait = wait_ms e (t_rnd tk);
          elapsed = t_now tk - lastRun;
          slept = (if elapsed < wait then timer_ms (wait - elapsed) else 0)
      in t_now tk + slept + int (t_late tk))"

text \<open>
  The read and the write are apart: the call sleeps between them, and other
  calls may run meanwhile. \<open>Enter i tk\<close> is call \<open>i\<close> reading \<^verbatim>\<open>lastRun\<close> and going
  to sleep, \<open>Leave i\<close> is call \<open>i\<close> waking up and writing \<^verbatim>\<open>lastRun\<close> (a call
  that need not sleep writes at once, with no other call in between). The gate
  holds the variable, the calls that are asleep with the time each will
  write, and the start times recorded so far, oldest first.
\<close>

datatype move =
    Enter nat tick
  | Leave nat

record gate =
  g_lastRun :: int
  g_asleep :: "(nat \<times> int) list"
  g_starts :: "int list"

fun throttle_step :: "env \<Rightarrow> move \<Rightarrow> gate \<Rightarrow> gate" where
  "throttle_step e (Enter i tk) g =
     g\<lparr>g_asleep := g_asleep g @ [(i, throttle e tk (g_lastRun g))]\<rparr>"
| "throttle_step e (Leave i) g =
     (case map_of (g_asleep g) i of
        None \<Rightarrow> g
      | Some wake \<Rightarrow>
          g\<lparr>g_lastRun := wake,
            g_asleep := filter (\<lambda>p. fst p \<noteq> i) (g_asleep g),
            g_starts := g_starts g @ [wake]\<rparr>)"

fun throttle_steps :: "env \<Rightarrow> move list \<Rightarrow> gate \<Rightarrow> gate" where
  "throttle_steps e [] g = g"
| "throttle_steps e (m # ms) g = throttle_steps e ms (throttle_step e m g)"

text \<open>
  The handlers below take one request at a time: each call of the throttle
  has left before the next one enters, so \<^verbatim>\<open>lastRun\<close> is threaded through them.
\<close>

section \<open>The browser, seen from the scraper\<close>

text \<open>
  Puppeteer and the page it drives are outside the repository. Every call the
  scraper makes on them is an operation that either returns or throws; each one
  is made at most once during a task, in a fixed order, so one task's browser
  is described by what each operation does and by the values the page yields.
\<close>

datatype page_op =
    NewPage
  | SetUserAgent string
  | Authenticate string string
  | GotoFeed
  | QueryUsername
  | TypeUsername string
  | TypePassword string
  | ClickSubmit
  | Goto "string option"
  | WaitForTimeout nat
  | Content
  | AutoScroll
  | Evaluate
  | ClosePage

text \<open>What \<^verbatim>\<open>page.evaluate\<close> reads off one post node and one job card.\<close>

record node =
  n_text :: "string option"
  n_datetime :: "string option"
  n_timetext :: "string option"
  n_activity_href :: "string option"
  n_posts_href :: "string option"

record card =
  c_title :: "string option"
  c_location :: "string option"
  c_timetext :: "string option"
  c_datetime :: "string option"
  c_href :: "string option"

record browser =
  launch :: "js_exn option"
  throws :: "page_op \<Rightarrow> js_exn option"
  feed_url :: string
  username_field :: bool
  page_url :: string
  html :: string
  data :: json
  nodes :: "node list"
  cards :: "card list"
  today :: int
  stamp :: string

text \<open>
  \<open>launch\<close>: the error \<^verbatim>\<open>puppeteer.launch\<close> rejects with, if it does.
  \<open>throws\<close>: the error a page operation throws, if it does.
  \<open>feed_url\<close>, \<open>username_field\<close>: \<^verbatim>\<open>page.url()\<close> and whether \<^verbatim>\<open>#username\<close> exists
  after the feed was opened. \<open>page_url\<close>, \<open>html\<close>: \<^verbatim>\<open>page.url()\<close> and
  \<^verbatim>\<open>page.content()\<close> after the target was opened. \<open>data\<close>: the object the
  profile or company extraction returns. \<open>nodes\<close>, \<open>cards\<close>: the elements
  \<^verbatim>\<open>querySelectorAll\<close> finds. \<open>today\<close>: the instant of \<^verbatim>\<open>dayjs()\<close> in ms;
  \<open>stamp\<close>: \<^verbatim>\<open>new Date().toISOString()\<close> at the end of the task.
\<close>

text \<open>
  The dayjs library: parsing, and \<^verbatim>\<open>subtract(n, 'day')\<close> from an instant. Both
  give \<open>None\<close> for an object whose \<^verbatim>\<open>isValid()\<close> is false (an Invalid Date).
\<close>

record dayjs =
  parse :: "string \<Rightarrow> int option"
  subtract_day :: "int \<Rightarrow> jsnum \<Rightarrow> int option"

section \<open>Effects\<close>

datatype scraper =
    ScrapeProfile
  | ScrapeProfilePosts
  | ScrapeCompany
  | ScrapeCompanyPosts
  | ScrapeCompanyJobs

text \<open>
  What a handler does, in order. \<open>Call\<close> records the entry into one of the
  five exported scrapers with its \<^verbatim>\<open>url\<close>, \<^verbatim>\<open>days\<close> and \<^verbatim>\<open>login\<close> options;
  \<open>Write v\<close> is \<^verbatim>\<open>res.write(JSON.stringify(v) + '\n')\<close>.
\<close>

datatype event =
    Throttled int
  | CreateBrowser
  | Call scraper "string option" "jsnum option" bool
  | EnsureLogin
  | LoadCookies
  | SaveCookies
  | PageOp page_op
  | CloseBrowser
  | SetHeader string string
  | Write json

text \<open>An awaited computation: it returns or throws, and leaves a trace.\<close>

type_synonym 'a io = "(js_exn + 'a) \<times> event list"

definition ret :: "'a \<Rightarrow> 'a io" where
  "ret a = (Inr a, [])"

definition throw :: "js_exn \<Rightarrow> 'a io" where
  "throw e = (Inl e, [])"

definition emit :: "event \<Rightarrow> unit io" where
  "emit ev = (Inr (), [ev])"

definition seq :: "'a io \<Rightarrow> ('a \<Rightarrow> 'b io) \<Rightarrow> 'b io" where
  "seq m f =
     (case m of
        (Inl e, t) \<Rightarrow> (Inl e, t)
      | (Inr a, t) \<Rightarrow> (case f a of (r, t') \<Rightarrow> (r, t @ t')))"

definition when_io :: "bool \<Rightarrow> unit io \<Rightarrow> unit io" where
  "when_io b m = (if b then m else ret ())"

definition page_do :: "browser \<Rightarrow> page_op \<Rightarrow> unit io" where
  "page_do b p =
     (case throws b p of
        Some e \<Rightarrow> (Inl e, [PageOp p])
      | None \<Rightarrow> (Inr (), [PageOp p]))"

section \<open>scraper.js\<close>

text \<open>
  The file holds two revisions of the module, one after the other. The first
  one (lines 1 to 279), to whose lines the claims refer, is the one embedded
  here. The second one sets an \<^verbatim>\<open>accept-language\<close> header after the user agent,
  waits with \<^verbatim>\<open>sleep\<close> instead of \<^verbatim>\<open>page.waitForTimeout\<close> and reads the
  cookies from a remote store first; the challenge check, the look-back filter,
  the \<^verbatim>\<open>slice(0, 50)\<close> and the returned objects are the same text in both.
  Fixed \<^verbatim>\<open>sleep\<close> delays have no effect here and are left out.
\<close>

definition createBrowser :: "browser \<Rightarrow> unit io" where
  "createBrowser b =
     (case launch b of
        Some e \<Rightarrow> (Inl e, [CreateBrowser])
      | None \<Rightarrow> (Inr (), [CreateBrowser]))"

text \<open>Both cookie helpers wrap their whole body in \<^verbatim>\<open>try { } catch {}\<close>.\<close>

definition loadCookies :: "unit io" where
  "loadCookies = emit LoadCookies"

definition saveCookies :: "unit io" where
  "saveCookies = emit SaveCookies"

definition ensureLogin :: "env \<Rightarrow> browser \<Rightarrow> unit io" where
  "ensureLogin e b =
     seq (emit EnsureLogin) (\<lambda>_.
     seq loadCookies (\<lambda>_.
     seq (page_do b GotoFeed) (\<lambda>_.
     seq (if str_includes (feed_url b) ''/login'' then ret True
          else seq (page_do b QueryUsername) (\<lambda>_. ret (username_field b))) (\<lambda>onLogin.
     if onLogin then
       (case (LINKEDIN_EMAIL e, LINKEDIN_PASSWORD e) of
          (Some email, Some pass) \<Rightarrow>
            if email = [] \<or> pass = []
            then throw (JsError ''Error'' ''Missing LINKEDIN_EMAIL / LINKEDIN_PASSWORD'')
            else
              seq (page_do b (TypeUsername email)) (\<lambda>_.
              seq (page_do b (TypePassword pass)) (\<lambda>_.
              seq (page_do b ClickSubmit) (\<lambda>_.
              saveCookies)))
        | _ \<Rightarrow> throw (JsError ''Error'' ''Missing LINKEDIN_EMAIL / LINKEDIN_PASSWORD''))
     else ret ()))))"

definition looksLikeCaptcha :: "string \<Rightarrow> string \<Rightarrow> bool" where
  "looksLikeCaptcha url h =
     ((url \<noteq> [] \<and> str_includes url ''checkpoint/challenge'')
      \<or> (h \<noteq> [] \<and> str_includes (map lower h) ''captcha''))"

definition autoScroll :: "browser \<Rightarrow> unit io" where
  "autoScroll b = page_do b AutoScroll"

definition setUserAgent :: "env \<Rightarrow> browser \<Rightarrow> unit io" where
  "setUserAgent e b =
     (case USER_AGENT e of
        Some ua \<Rightarrow> when_io (ua \<noteq> []) (page_do b (SetUserAgent ua))
      | None \<Rightarrow> ret ())"

definition captcha_sentinel :: "browser \<Rightarrow> json" where
  "captcha_sentinel b =
     obj [(''error'', Some (JStr ''captcha_or_challenge'')), (''url'', Some (JStr (page_url b)))]"

definition scrapeProfile :: "env \<Rightarrow> browser \<Rightarrow> string option \<Rightarrow> bool \<Rightarrow> json io" where
  "scrapeProfile e b url login =
     seq (emit (Call ScrapeProfile url None login)) (\<lambda>_.
     seq (page_do b NewPage) (\<lambda>_.
     seq (setUserAgent e b) (\<lambda>_.
     seq (case (PROXY_USERNAME e, PROXY_PASSWORD e) of
            (Some u, Some p) \<Rightarrow> when_io (u \<noteq> [] \<and> p \<noteq> []) (page_do b (Authenticate u p))
          | _ \<Rightarrow> ret ()) (\<lambda>_.
     seq (when_io login (ensureLogin e b)) (\<lambda>_.
     seq (page_do b (Goto url)) (\<lambda>_.
     seq (page_do b (WaitForTimeout 1200)) (\<lambda>_.
     seq (page_do b Content) (\<lambda>_.
     if looksLikeCaptcha (page_url b) (html b) then ret (captcha_sentinel b)
     else
       seq (autoScroll b) (\<lambda>_.
       seq (page_do b Evaluate) (\<lambda>_.
       seq (page_do b ClosePage) (\<lambda>_.
       ret (obj [(''url'', map_option JStr url),
                 (''scrapedAt'', Some (JStr (stamp b))),
                 (''data'', Some (data b))]))))))))))))"

text \<open>
  Post items as \<^verbatim>\<open>page.evaluate\<close> builds them, and the look-back filter:
  \<^verbatim>\<open>parsed.isAfter(cutoff)\<close> is false when \<^verbatim>\<open>cutoff\<close> is an Invalid Date.
\<close>

record item =
  i_text :: "string option"
  i_timeRaw :: "string option"
  i_postUrl :: "string option"

definition profile_item :: "node \<Rightarrow> item" where
  "profile_item n =
     \<lparr>i_text = n_text n,
      i_timeRaw = js_or (js_or (n_datetime n) (n_timetext n)) None,
      i_postUrl = n_activity_href n\<rparr>"

definition company_item :: "node \<Rightarrow> item" where
  "company_item n =
     \<lparr>i_text = n_text n,
      i_timeRaw = js_or (js_or (n_datetime n) (n_timetext n)) None,
      i_postUrl = (case n_posts_href n of Some h \<Rightarrow> Some h | None \<Rightarrow> n_activity_href n)\<rparr>"

definition keep :: "dayjs \<Rightarrow> int option \<Rightarrow> item \<Rightarrow> bool" where
  "keep d cutoff it =
     (case i_timeRaw it of
        None \<Rightarrow> True
      | Some raw \<Rightarrow>
          if raw = [] then True
          else (case parse d raw of
                  Some parsed \<Rightarrow> (case cutoff of Some c \<Rightarrow> c < parsed | None \<Rightarrow> False)
                | None \<Rightarrow> True))"

definition item_json :: "item \<Rightarrow> json" where
  "item_json it =
     obj [(''text'', Some (opt_json (i_text it))),
          (''timeRaw'', Some (opt_json (i_timeRaw it))),
          (''postUrl'', Some (opt_json (i_postUrl it)))]"

definition no_replace :: js_exn where
  "no_replace = JsError ''TypeError'' ''Cannot read properties of undefined (reading 'replace')''"

definition scrapeProfilePosts ::
  "env \<Rightarrow> dayjs \<Rightarrow> browser \<Rightarrow> string option \<Rightarrow> jsnum \<Rightarrow> bool \<Rightarrow> json io" where
  "scrapeProfilePosts e d b url days login =
     seq (emit (Call ScrapeProfilePosts url (Some days) login)) (\<lambda>_.
     seq (page_do b NewPage) (\<lambda>_.
     seq (setUserAgent e b) (\<lambda>_.
     seq (when_io login (ensureLogin e b)) (\<lambda>_.
     seq (case url of
            None \<Rightarrow> throw no_replace
          | Some u \<Rightarrow>
              if str_includes (map lower u) ''detail/recent-activity'' then ret u
              else ret (with_slash u @ ''detail/recent-activity/shares/'')) (\<lambda>postsUrl.
     seq (page_do b (Goto (Some postsUrl))) (\<lambda>_.
     seq (page_do b (WaitForTimeout 1200)) (\<lambda>_.
     seq (autoScroll b) (\<lambda>_.
     seq (page_do b Evaluate) (\<lambda>_.
     seq (page_do b ClosePage) (\<lambda>_.
     ret (obj [(''url'', Some (JStr postsUrl)),
               (''scrapedAt'', Some (JStr (stamp b))),
               (''days'', Some (num_json days)),
               (''items'', Some (JArr (map item_json
                  (filter (keep d (subtract_day d (today b) days))
                     (map profile_item (nodes b))))))])))))))))))"

definition scrapeCompany :: "env \<Rightarrow> browser \<Rightarrow> string option \<Rightarrow> bool \<Rightarrow> json io" where
  "scrapeCompany e b url login =
     seq (emit (Call ScrapeCompany url None login)) (\<lambda>_.
     seq (page_do b NewPage) (\<lambda>_.
     seq (setUserAgent e b) (\<lambda>_.
     seq (when_io login (ensureLogin e b)) (\<lambda>_.
     seq (page_do b (Goto url)) (\<lambda>_.
     seq (page_do b (WaitForTimeout 1000)) (\<lambda>_.
     seq (page_do b Content) (\<lambda>_.
     if looksLikeCaptcha (page_url b) (html b) then ret (captcha_sentinel b)
     else
       seq (autoScroll b) (\<lambda>_.
       seq (page_do b Evaluate) (\<lambda>_.
       seq (page_do b ClosePage) (\<lambda>_.
       ret (obj [(''url'', map_option JStr url),
                 (''scrapedAt'', Some (JStr (stamp b))),
                 (''data'', Some (data b))])))))))))))"

definition scrapeCompanyPosts ::
  "env \<Rightarrow> dayjs \<Rightarrow> browser \<Rightarrow> string option \<Rightarrow> jsnum \<Rightarrow> bool \<Rightarrow> json io" where
  "scrapeCompanyPosts e d b url days login =
     seq (emit (Call ScrapeCompanyPosts url (Some days) login)) (\<lambda>_.
     seq (page_do b NewPage) (\<lambda>_.
     seq (setUserAgent e b) (\<lambda>_.
     seq (when_io login (ensureLogin e b)) (\<lambda>_.
     seq (case url of
            None \<Rightarrow> throw no_replace
          | Some u \<Rightarrow> ret (with_slash u @ ''posts/'')) (\<lambda>postsUrl.
     seq (page_do b (Goto (Some postsUrl))) (\<lambda>_.
     seq (page_do b (WaitForTimeout 1200)) (\<lambda>_.
     seq (autoScroll b) (\<lambda>_.
     seq (page_do b Evaluate) (\<lambda>_.
     seq (page_do b ClosePage) (\<lambda>_.
     ret (obj [(''url'', Some (JStr postsUrl)),
               (''scrapedAt'', Some (JStr (stamp b))),
               (''days'', Some (num_json days)),
               (''items'', Some (JArr (map item_json
                  (filter (keep d (subtract_day d (today b) days))
                     (map company_item (nodes b))))))])))))))))))"

definition job_json :: "card \<Rightarrow> json" where
  "job_json c =
     obj [(''title'', Some (opt_json (c_title c))),
          (''location'', Some (opt_json (c_location c))),
          (''listed'', Some (opt_json (js_or (js_or (c_timetext c) (c_datetime c)) None))),
          (''jobUrl'', Some (opt_json (js_or (c_href c) None)))]"

definition scrapeCompanyJobs :: "env \<Rightarrow> browser \<Rightarrow> string option \<Rightarrow> bool \<Rightarrow> json io" where
  "scrapeCompanyJobs e b url login =
     seq (emit (Call ScrapeCompanyJobs url None login)) (\<lambda>_.
     seq (page_do b NewPage) (\<lambda>_.
     seq (setUserAgent e b) (\<lambda>_.
     seq (when_io login (ensureLogin e b)) (\<lambda>_.
     seq (case url of
            None \<Rightarrow> throw no_replace
          | Some u \<Rightarrow> ret (with_slash u @ ''jobs/'')) (\<lambda>jobsUrl.
     seq (page_do b (Goto (Some jobsUrl))) (\<lambda>_.
     seq (page_do b (WaitForTimeout 1200)) (\<lambda>_.
     seq (autoScroll b) (\<lambda>_.
     seq (page_do b Evaluate) (\<lambda>_.
     seq (page_do b ClosePage) (\<lambda>_.
     ret (obj [(''url'', Some (JStr jobsUrl)),
               (''scrapedAt'', Some (JStr (stamp b))),
               (''jobs'', Some (JArr (map job_json (take 50 (cards b)))))])))))))))))"

section \<open>server.js: the single-task endpoints\<close>

text \<open>
  The query of a GET request: \<^verbatim>\<open>req.query.url\<close> and \<^verbatim>\<open>req.query.login\<close> as
  strings when present, and \<^verbatim>\<open>req.query.days\<close> as the number \<^verbatim>\<open>Number(...)\<close>
  reads from it (\<open>None\<close> when absent or empty, where the default 30 applies;
  a fractional value is not described).
\<close>

record query =
  q_url :: "string option"
  q_login :: "string option"
  q_days :: "jsnum option"

text \<open>
  How a handler ends: \<open>Json s v\<close> is \<^verbatim>\<open>res.status(s).json(v)\<close>, \<open>End\<close> is
  \<^verbatim>\<open>res.end()\<close> after the streamed lines, \<open>Unhandled e\<close> is the handler's promise
  rejecting with \<open>e\<close> before any response was sent or ended.
\<close>

datatype outcome =
    Json nat json
  | End
  | Unhandled js_exn

text \<open>What the outside does during one task: the throttle's view and the browser.\<close>

record world =
  w_tick :: tick
  w_browser :: browser

definition want_login :: "env \<Rightarrow> bool \<Rightarrow> bool" where
  "want_login e asked = (asked \<or> truthy (LINKEDIN_EMAIL e))"

definition error_body :: "string \<Rightarrow> json" where
  "error_body msg = obj [(''error'', Some (JStr msg))]"

text \<open>
  The shared shape of the five handlers after the \<^verbatim>\<open>url\<close> check:
  \<^verbatim>\<open>createBrowser()\<close> outside the \<^verbatim>\<open>try\<close>, then
  \<^verbatim>\<open>try { res.json(await scrape...) } catch (e) { res.status(500).json({error: String(e)}) }
  finally { try { await browser.close() } catch {} }\<close>.
\<close>

definition serve :: "world \<Rightarrow> json io \<Rightarrow> outcome \<times> event list" where
  "serve w scrape =
     (case createBrowser (w_browser w) of
        (Inl e, t) \<Rightarrow> (Unhandled e, t)
      | (Inr _, t) \<Rightarrow>
          (case scrape of
             (Inr result, t') \<Rightarrow> (Json 200 result, t @ t' @ [CloseBrowser])
           | (Inl e, t') \<Rightarrow> (Json 500 (error_body (String_of e)), t @ t' @ [CloseBrowser])))"

text \<open>Each handler maps \<^verbatim>\<open>lastRun\<close> to its outcome, the new \<^verbatim>\<open>lastRun\<close> and the trace.\<close>

definition get_profile :: "env \<Rightarrow> world \<Rightarrow> query \<Rightarrow> int \<Rightarrow> outcome \<times> int \<times> event list" where
  "get_profile e w q lastRun =
     (let lastRun' = throttle e (w_tick w) lastRun;
          url = q_url q;
          login = want_login e (q_login q = Some ''1'')
      in if \<not> truthy url then (Json 400 (error_body ''Missing ?url''), lastRun', [Throttled lastRun'])
         else (case serve w (scrapeProfile e (w_browser w) url login) of
                 (out, t) \<Rightarrow> (out, lastRun', Throttled lastRun' # t)))"

definition get_profile_posts ::
  "env \<Rightarrow> dayjs \<Rightarrow> world \<Rightarrow> query \<Rightarrow> int \<Rightarrow> outcome \<times> int \<times> event list" where
  "get_profile_posts e d w q lastRun =
     (let lastRun' = throttle e (w_tick w) lastRun;
          url = q_url q;
          days = (case q_days q of None \<Rightarrow> Num 30 | Some n \<Rightarrow> n);
          login = want_login e (q_login q = Some ''1'')
      in if \<not> truthy url then (Json 400 (error_body ''Missing ?url''), lastRun', [Throttled lastRun'])
         else (case serve w (scrapeProfilePosts e d (w_browser w) url days login) of
                 (out, t) \<Rightarrow> (out, lastRun', Throttled lastRun' # t)))"

definition get_company :: "env \<Rightarrow> world \<Rightarrow> query \<Rightarrow> int \<Rightarrow> outcome \<times> int \<times> event list" where
  "get_company e w q lastRun =
     (let lastRun' = throttle e (w_tick w) lastRun;
          url = q_url q;
          login = want_login e (q_login q = Some ''1'')
      in if \<not> truthy url then (Json 400 (error_body ''Missing ?url''), lastRun', [Throttled lastRun'])
         else (case serve w (scrapeCompany e (w_browser w) url login) of
                 (out, t) \<Rightarrow> (out, lastRun', Throttled lastRun' # t)))"

definition get_company_posts ::
  "env \<Rightarrow> dayjs \<Rightarrow> world \<Rightarrow> query \<Rightarrow> int \<Rightarrow> outcome \<times> int \<times> event list" where
  "get_company_posts e d w q lastRun =
     (let lastRun' = throttle e (w_tick w) lastRun;
          url = q_url q;
          days = (case q_days q of None \<Rightarrow> Num 30 | Some n \<Rightarrow> n);
          login = want_login e (q_login q = Some ''1'')
      in if \<not> truthy url then (Json 400 (error_body ''Missing ?url''), lastRun', [Throttled lastRun'])
         else (case serve w (scrapeCompanyPosts e d (w_browser w) url days login) of
                 (out, t) \<Rightarrow> (out, lastRun', Throttled lastRun' # t)))"

definition get_jobs_company :: "env \<Rightarrow> world \<Rightarrow> query \<Rightarrow> int \<Rightarrow> outcome \<times> int \<times> event list" where
  "get_jobs_company e w q lastRun =
     (let lastRun' = throttle e (w_tick w) lastRun;
          url = q_url q;
          login = want_login e (q_login q = Some ''1'')
      in if \<not> truthy url
         then (Json 400 (error_body ''Missing ?url (company page)''), lastRun', [Throttled lastRun'])
         else (case serve w (scrapeCompanyJobs e (w_browser w) url login) of
                 (out, t) \<Rightarrow> (out, lastRun', Throttled lastRun' # t)))"

section \<open>server.js: the queue endpoint\<close>

text \<open>
  A task of the request body, as the OpenAPI block of the handler types it:
  an object whose four properties may each be absent.
\<close>

record task =
  t_type :: "string option"
  t_url :: "string option"
  t_days :: "int option"
  t_login :: "int option"

text \<open>
  The body: \<open>b_stream\<close> is the \<^verbatim>\<open>stream\<close> property when present; \<open>b_tasks\<close> is
  the \<^verbatim>\<open>tasks\<close> property when it is an array (an absent one defaults to
  \<^verbatim>\<open>[]\<close>, and anything that is not an array is refused like the empty array).
  An element of the array is a task object or \<^verbatim>\<open>null\<close> (\<open>None\<close>); any other
  value that is no object has none of the four properties and reads like the
  empty object.
\<close>

record body =
  b_stream :: "json option"
  b_tasks :: "task option list option"

text \<open>The \<^verbatim>\<open>if / else if\<close> chain inside the \<^verbatim>\<open>try\<close>: the value assigned to \<^verbatim>\<open>out\<close>.\<close>

definition dispatch :: "env \<Rightarrow> dayjs \<Rightarrow> browser \<Rightarrow> task \<Rightarrow> bool \<Rightarrow> json io" where
  "dispatch e d b t login =
     (let days = Num (case t_days t of None \<Rightarrow> 30 | Some n \<Rightarrow> if n = 0 then 30 else n)
      in if t_type t = Some ''profile'' then scrapeProfile e b (t_url t) login
         else if t_type t = Some ''profile_posts'' then scrapeProfilePosts e d b (t_url t) days login
         else if t_type t = Some ''company'' then scrapeCompany e b (t_url t) login
         else if t_type t = Some ''company_posts'' then scrapeCompanyPosts e d b (t_url t) days login
         else if t_type t = Some ''jobs_company'' then scrapeCompanyJobs e b (t_url t) login
         else ret (obj [(''error'', Some (JStr ''unknown_type'')),
                        (''type'', map_option JStr (t_type t)),
                        (''url'', map_option JStr (t_url t))]))"

text \<open>The object built for the task: \<^verbatim>\<open>payload\<close> in the \<^verbatim>\<open>try\<close>, \<^verbatim>\<open>err\<close> in the \<^verbatim>\<open>catch\<close>.\<close>

definition envelope :: "task \<Rightarrow> js_exn + json \<Rightarrow> json" where
  "envelope t r =
     (case r of
        Inr out \<Rightarrow>
          obj [(''ok'', Some (JBool True)),
               (''type'', map_option JStr (t_type t)),
               (''url'', map_option JStr (t_url t)),
               (''result'', Some out)]
      | Inl e \<Rightarrow>
          obj [(''ok'', Some (JBool False)),
               (''type'', map_option JStr (t_type t)),
               (''url'', map_option JStr (t_url t)),
               (''error'', Some (JStr (String_of e)))])"

text \<open>
  One turn of the \<^verbatim>\<open>for\<close> loop on a task object. \<^verbatim>\<open>createBrowser()\<close> is outside
  the \<^verbatim>\<open>try\<close>, so its failure leaves the loop; everything the dispatch throws is
  caught. Without \<^verbatim>\<open>stream\<close> the envelope is only stored in the local \<^verbatim>\<open>out\<close>.
\<close>

definition queue_task ::
  "env \<Rightarrow> dayjs \<Rightarrow> world \<Rightarrow> bool \<Rightarrow> task \<Rightarrow> int \<Rightarrow> (js_exn + unit) \<times> int \<times> event list" where
  "queue_task e d w stream t lastRun =
     (let lastRun' = throttle e (w_tick w) lastRun;
          login = want_login e (t_login t = Some 1)
      in case createBrowser (w_browser w) of
           (Inl ex, tr) \<Rightarrow> (Inl ex, lastRun', Throttled lastRun' # tr)
         | (Inr _, tr) \<Rightarrow>
             (case dispatch e d (w_browser w) t login of
                (r, tr') \<Rightarrow>
                  (Inr (), lastRun',
                   Throttled lastRun' # tr @ tr'
                     @ (if stream then [Write (envelope t r)] else [])
                     @ [CloseBrowser])))"

text \<open>
  One turn on any element. On \<^verbatim>\<open>null\<close> the read of \<^verbatim>\<open>t.login\<close>, which comes after
  the throttle and before \<^verbatim>\<open>createBrowser()\<close> and the \<^verbatim>\<open>try\<close>, throws.
\<close>

definition no_login :: js_exn where
  "no_login = JsError ''TypeError'' ''Cannot read properties of null (reading 'login')''"

definition queue_turn ::
  "env \<Rightarrow> dayjs \<Rightarrow> world \<Rightarrow> bool \<Rightarrow> task option \<Rightarrow> int \<Rightarrow> (js_exn + unit) \<times> int \<times> event list" where
  "queue_turn e d w stream el lastRun =
     (case el of
        None \<Rightarrow>
          (let lastRun' = throttle e (w_tick w) lastRun
           in (Inl no_login, lastRun', [Throttled lastRun']))
      | Some t \<Rightarrow> queue_task e d w stream t lastRun)"

text \<open>The loop over the tasks; the \<open>i\<close>-th turn meets the world \<open>ws i\<close>.\<close>

fun queue_loop ::
  "env \<Rightarrow> dayjs \<Rightarrow> (nat \<Rightarrow> world) \<Rightarrow> bool \<Rightarrow> nat \<Rightarrow> task option list \<Rightarrow> int
     \<Rightarrow> (js_exn + unit) \<times> int \<times> event list" where
  "queue_loop e d ws stream i [] lastRun = (Inr (), lastRun, [])"
| "queue_loop e d ws stream i (t # ts) lastRun =
     (case queue_turn e d (ws i) stream t lastRun of
        (Inl ex, lastRun', tr) \<Rightarrow> (Inl ex, lastRun', tr)
      | (Inr _, lastRun', tr) \<Rightarrow>
          (case queue_loop e d ws stream (Suc i) ts lastRun' of
             (r, lastRun'', tr') \<Rightarrow> (r, lastRun'', tr @ tr')))"

definition post_queue ::
  "env \<Rightarrow> dayjs \<Rightarrow> (nat \<Rightarrow> world) \<Rightarrow> body \<Rightarrow> int \<Rightarrow> outcome \<times> int \<times> event list" where
  "post_queue e d ws bd lastRun =
     (let stream = (case b_stream bd of None \<Rightarrow> True | Some v \<Rightarrow> truthy_json v);
          tasks = (case b_tasks bd of None \<Rightarrow> [] | Some ts \<Rightarrow> ts)
      in if tasks = []
         then (Json 400 (error_body ''Provide tasks: [{type,url,days?,login?}, ...]''), lastRun, [])
         else
           (let hdr = (if stream then [SetHeader ''Content-Type'' ''application/x-ndjson''] else [])
            in case queue_loop e d ws stream 0 tasks lastRun of
                 (Inl ex, lastRun', tr) \<Rightarrow> (Unhandled ex, lastRun', hdr @ tr)
               | (Inr _, lastRun', tr) \<Rightarrow>
                   ((if stream then End else Json 200 (obj [(''ok'', Some (JBool True))])),
                    lastRun', hdr @ tr)))"

text \<open>The lines a trace wrote, in order.\<close>

fun written :: "event list \<Rightarrow> json list" where
  "written [] = []"
| "written (Write v # evs) = v # written evs"
| "written (_ # evs) = written evs"

section \<open>A concrete environment\<close>

text \<open>
  No variable set; a dayjs that can read two dates, takes a day as 86400000 ms
  and, like \<^verbatim>\<open>Date\<close>, has no instant further than 8640000000000000 ms from the
  epoch; a browser in which nothing throws, the target page is an ordinary
  page and the extraction yields \<^verbatim>\<open>{name: "Acme"}\<close>.
\<close>

definition env0 :: env where
  "env0 = \<lparr>RATE_MIN_MS = None, RATE_MAX_MS = None, LINKEDIN_EMAIL = None,
            LINKEDIN_PASSWORD = None, USER_AGENT = None, PROXY_USERNAME = None,
            PROXY_PASSWORD = None\<rparr>"

definition dayjs0 :: dayjs where
  "dayjs0 = \<lparr>parse = (\<lambda>s. if s = ''2024-03-01'' then Some 1709251200000
                        else if s = ''2024-03-20'' then Some 1710892800000
                        else None),
              subtract_day = (\<lambda>now n. case n of
                   NaN \<Rightarrow> None
                 | Num k \<Rightarrow>
                     if - 8640000000000000 \<le> now - k * 86400000
                        \<and> now - k * 86400000 \<le> 8640000000000000
                     then Some (now - k * 86400000) else None)\<rparr>"

definition calm :: browser where
  "calm = \<lparr>launch = None, throws = (\<lambda>_. None),
           feed_url = ''https://www.linkedin.com/feed/'', username_field = False,
           page_url = ''https://example.com/company/acme'', html = ''<html><h1>Acme</h1></html>'',
           data = JObj [(''name'', JStr ''Acme'')], nodes = [], cards = [],
           today = 1711000000000, stamp = ''2024-03-21T05:46:40.000Z''\<rparr>"

definition world0 :: world where
  "world0 = \<lparr>w_tick = \<lparr>t_now = 1711000000000, t_rnd = 0, t_late = 0\<rparr>, w_browser = calm\<rparr>"

text \<open>The same browser, except that every navigation to a target times out.\<close>

definition stalled :: browser where
  "stalled = calm\<lparr>throws := (\<lambda>p. case p of
       Goto _ \<Rightarrow> Some (JsError ''TimeoutError'' ''Navigation timeout of 60000 ms exceeded'')
     | _ \<Rightarrow> None)\<rparr>"

section \<open>Reading a trace\<close>

text \<open>
  The events of the login flow, the events a scraper produces after its own
  entry, and the entries themselves.
\<close>

fun login_event :: "event \<Rightarrow> bool" where
  "login_event EnsureLogin = True"
| "login_event LoadCookies = True"
| "login_event SaveCookies = True"
| "login_event (PageOp GotoFeed) = True"
| "login_event (PageOp QueryUsername) = True"
| "login_event (PageOp (TypeUsername s)) = True"
| "login_event (PageOp (TypePassword s)) = True"
| "login_event (PageOp ClickSubmit) = True"
| "login_event _ = False"

fun inner_event :: "event \<Rightarrow> bool" where
  "inner_event EnsureLogin = True"
| "inner_event LoadCookies = True"
| "inner_event SaveCookies = True"
| "inner_event (PageOp p) = True"
| "inner_event _ = False"

fun is_call :: "event \<Rightarrow> bool" where
  "is_call (Call k u n l) = True"
| "is_call _ = False"

text \<open>The object the loop builds for a task: the envelope of what the dispatch did.\<close>

definition line_of :: "env \<Rightarrow> dayjs \<Rightarrow> world \<Rightarrow> task \<Rightarrow> json" where
  "line_of e d w t =
     envelope t (fst (dispatch e d (w_browser w) t (want_login e (t_login t = Some 1))))"

text \<open>
  The events of one whole turn of the loop that recorded the start \<open>start\<close>, and
  the value of \<^verbatim>\<open>lastRun\<close> after the first \<open>k\<close> turns.
\<close>

definition turn_events :: "env \<Rightarrow> dayjs \<Rightarrow> world \<Rightarrow> bool \<Rightarrow> task \<Rightarrow> int \<Rightarrow> event list" where
  "turn_events e d w stream t start =
     Throttled start # CreateBrowser
       # snd (dispatch e d (w_browser w) t (want_login e (t_login t = Some 1)))
       @ (if stream then [Write (line_of e d w t)] else [])
       @ [CloseBrowser]"

fun lastRun_after :: "env \<Rightarrow> (nat \<Rightarrow> world) \<Rightarrow> int \<Rightarrow> nat \<Rightarrow> int" where
  "lastRun_after e ws lastRun 0 = lastRun"
| "lastRun_after e ws lastRun (Suc k) = throttle e (w_tick (ws k)) (lastRun_after e ws lastRun k)"

text \<open>
  The login flow has what it needs: the session is still valid (the feed
  does not redirect to the login page and shows no \<^verbatim>\<open>#username\<close> field), or both
  credentials are configured.
\<close>

definition login_passes :: "env \<Rightarrow> browser \<Rightarrow> bool" where
  "login_passes e b =
     (str_includes (feed_url b) ''/login'' \<or> username_field b
        \<longrightarrow> truthy (LINKEDIN_EMAIL e) \<and> truthy (LINKEDIN_PASSWORD e))"

section \<open>The response body as text\<close>

text \<open>
  \<^verbatim>\<open>JSON.stringify\<close> on the values above: strings quoted with the JSON escapes,
  members in insertion order, no white space. An integer below \<^verbatim>\<open>1e21\<close> in
  magnitude is printed in decimal digits; from \<^verbatim>\<open>1e21\<close> on JavaScript prints
  the exponent form \<^verbatim>\<open>d.ddde+n\<close>, whose digits are those of the shortest decimal
  that reads back as the same number. They are computed by the engine: \<open>sd m\<close>
  stands for them, read as a number, for the magnitude \<open>m\<close>. \<open>body_text\<close> is
  what the \<^verbatim>\<open>res.write\<close> calls of a trace send; \<open>text_lines\<close> splits a text at
  its line feeds, as a reader of NDJSON does.
\<close>

definition digit :: "nat \<Rightarrow> char" where
  "digit n = ''0123456789abcdef'' ! (n mod 16)"

fun dec :: "nat \<Rightarrow> string" where
  "dec n = (if n < 10 then [digit n] else dec (n div 10) @ [digit (n mod 10)])"

declare dec.simps [simp del]

definition escape :: "char \<Rightarrow> string" where
  "escape c =
     (let n = (of_char c :: nat) in
      if n = 34 then [CHR 0x5C, CHR 0x22]
      else if n = 92 then [CHR 0x5C, CHR 0x5C]
      else if n = 8 then [CHR 0x5C, CHR ''b'']
      else if n = 12 then [CHR 0x5C, CHR ''f'']
      else if n = 10 then [CHR 0x5C, CHR ''n'']
      else if n = 13 then [CHR 0x5C, CHR ''r'']
      else if n = 9 then [CHR 0x5C, CHR ''t'']
      else if n < 32 then [CHR 0x5C, CHR ''u'', CHR ''0'', CHR ''0'', digit (n div 16), digit (n mod 16)]
      else [c])"

definition quote :: "string \<Rightarrow> string" where
  "quote s = [CHR 0x22] @ concat (map escape s) @ [CHR 0x22]"

fun commas :: "string list \<Rightarrow> string" where
  "commas [] = []"
| "commas [x] = x"
| "commas (x # y # ys) = x @ '','' @ commas (y # ys)"

definition exponent_form :: "(nat \<Rightarrow> nat) \<Rightarrow> nat \<Rightarrow> string" where
  "exponent_form sd m =
     (let s = dec (sd m)
      in [hd s] @ (if tl s = [] then [] else ''.'' @ tl s) @ ''e+'' @ dec (length (dec m) - 1))"

definition num_text :: "(nat \<Rightarrow> nat) \<Rightarrow> int \<Rightarrow> string" where
  "num_text sd n =
     (let m = nat \<bar>n\<bar>;
          digits = (if m < 10 ^ 21 then dec m else exponent_form sd m)
      in if n < 0 then ''-'' @ digits else digits)"

fun stringify :: "(nat \<Rightarrow> nat) \<Rightarrow> json \<Rightarrow> string" where
  "stringify sd JNull = ''null''"
| "stringify sd (JBool b) = (if b then ''true'' else ''false'')"
| "stringify sd (JNum n) = num_text sd n"
| "stringify sd (JStr s) = quote s"
| "stringify sd (JArr vs) = ''['' @ commas (map (stringify sd) vs) @ '']''"
| "stringify sd (JObj kvs) =
     ''{'' @ commas (map (\<lambda>kv. quote (fst kv) @ '':'' @ stringify sd (snd kv)) kvs) @ ''}''"

definition body_text :: "(nat \<Rightarrow> nat) \<Rightarrow> event list \<Rightarrow> string" where
  "body_text sd tr = concat (map (\<lambda>v. stringify sd v @ [CHR 0x0A]) (written tr))"

fun lines_from :: "string \<Rightarrow> string \<Rightarrow> string list" where
  "lines_from cur [] = (if cur = [] then [] else [cur])"
| "lines_from cur (c # cs) =
     (if c = CHR 0x0A then cur # lines_from [] cs else lines_from (cur @ [c]) cs)"

definition text_lines :: "string \<Rightarrow> string list" where
  "text_lines s = lines_from [] s"

section \<open>More concrete browsers\<close>

text \<open>
  A world around a given browser; a browser that fails to launch; one that lands
  on a challenge page; one whose feed holds an old, a recent, a relative and an
  undated post; one whose jobs page holds sixty cards; an environment with
  credentials; one with both bounds of the throttle at 1000 ms.
\<close>

definition world_with :: "browser \<Rightarrow> world" where
  "world_with b = \<lparr>w_tick = \<lparr>t_now = 1711000000000, t_rnd = 0, t_late = 0\<rparr>, w_browser = b\<rparr>"

definition down :: browser where
  "down = calm\<lparr>launch := Some (JsError ''Error'' ''Failed to launch the browser process!'')\<rparr>"

definition blocked :: browser where
  "blocked = calm\<lparr>page_url := ''https://www.linkedin.com/checkpoint/challenge/1'',
                  html := ''<html>Security Verification</html>''\<rparr>"

definition dated :: browser where
  "dated = calm\<lparr>nodes :=
     [\<lparr>n_text = Some ''old'', n_datetime = Some ''2024-03-01'', n_timetext = None,
        n_activity_href = None, n_posts_href = None\<rparr>,
      \<lparr>n_text = Some ''new'', n_datetime = Some ''2024-03-20'', n_timetext = None,
        n_activity_href = None, n_posts_href = None\<rparr>,
      \<lparr>n_text = Some ''relative'', n_datetime = None, n_timetext = Some ''2w'',
        n_activity_href = None, n_posts_href = None\<rparr>,
      \<lparr>n_text = Some ''undated'', n_datetime = None, n_timetext = None,
        n_activity_href = None, n_posts_href = None\<rparr>]\<rparr>"

definition hiring :: browser where
  "hiring = calm\<lparr>cards := replicate 60
     \<lparr>c_title = Some ''Engineer'', c_location = None, c_timetext = None, c_datetime = None,
      c_href = None\<rparr>\<rparr>"

definition env_email :: env where
  "env_email = env0\<lparr>LINKEDIN_EMAIL := Some ''me@example.com'', LINKEDIN_PASSWORD := Some ''secret''\<rparr>"

text \<open>A browser whose session has expired: the feed shows the login form.\<close>

definition signed_out :: "browser \<Rightarrow> browser" where
  "signed_out b = b\<lparr>username_field := True\<rparr>"

definition env1000 :: env where
  "env1000 = env0\<lparr>RATE_MIN_MS := Some 1000, RATE_MAX_MS := Some 1000\<rparr>"

section \<open>Sequencing and traces\<close>

lemma seq_Inl: "seq (Inl e, t) f = (Inl e, t)"
  by (simp add: seq_def)

lemma seq_Inr: "seq (Inr a, t) f = (fst (f a), t @ snd (f a))"
  by (simp add: seq_def split: prod.splits)

lemma seq_emit: "seq (emit ev) f = (fst (f ()), ev # snd (f ()))"
  by (simp add: emit_def seq_Inr)

lemma seq_ret: "seq (ret a) f = f a"
  by (simp add: ret_def seq_Inr)

lemma seq_throw: "seq (throw e) f = (Inl e, [])"
  by (simp add: throw_def seq_Inl)

lemma seq_page_do:
  "seq (page_do b p) f =
     (case throws b p of Some e \<Rightarrow> (Inl e, [PageOp p]) | None \<Rightarrow> (fst (f ()), PageOp p # snd (f ())))"
  by (simp add: page_do_def seq_Inl seq_Inr split: option.splits)

lemma serve_throw:
  "launch (w_browser w) = None \<Longrightarrow> scrape = (Inl ex, t) \<Longrightarrow>
   serve w scrape = (Json 500 (JObj [(''error'', JStr (String_of ex))]), CreateBrowser # t @ [CloseBrowser])"
  by (simp add: serve_def createBrowser_def error_body_def obj_def)

lemma queue_task_caught:
  assumes "launch (w_browser w) = None"
    and "dispatch e d (w_browser w) tsk (want_login e (t_login tsk = Some 1)) = (r, t)"
  shows "queue_task e d w stream tsk lastRun =
           (Inr (), throttle e (w_tick w) lastRun,
            Throttled (throttle e (w_tick w) lastRun) # CreateBrowser # t
              @ (if stream then [Write (envelope tsk r)] else []) @ [CloseBrowser])"
  using assms by (simp add: queue_task_def Let_def createBrowser_def)

lemma seq_fst: "fst (seq m f) = (case fst m of Inl e \<Rightarrow> Inl e | Inr a \<Rightarrow> fst (f a))"
  by (cases m) (auto simp: seq_def split: sum.splits prod.splits)

lemma seq_snd: "snd (seq m f) = snd m @ (case fst m of Inl e \<Rightarrow> [] | Inr a \<Rightarrow> snd (f a))"
  by (cases m) (auto simp: seq_def split: sum.splits prod.splits)

lemma seq_assoc: "seq (seq m f) g = seq m (\<lambda>a. seq (f a) g)"
  by (cases m) (auto simp: seq_def split: sum.splits prod.splits)

lemma seq_all:
  assumes "list_all P (snd m)" and "\<And>a. list_all P (snd (f a))"
  shows "list_all P (snd (seq m f))"
  using assms by (simp add: seq_snd split: sum.splits)

lemma page_do_all: "P (PageOp p) \<Longrightarrow> list_all P (snd (page_do b p))"
  by (simp add: page_do_def split: option.splits)

lemma emit_all: "P ev \<Longrightarrow> list_all P (snd (emit ev))"
  by (simp add: emit_def)

lemma ret_all: "list_all P (snd (ret a))"
  by (simp add: ret_def)

lemma throw_all: "list_all P (snd (throw e))"
  by (simp add: throw_def)

lemma when_all: "list_all P (snd m) \<Longrightarrow> list_all P (snd (when_io c m))"
  by (simp add: when_io_def ret_def)

lemma ensureLogin_events: "list_all login_event (snd (ensureLogin e b))"
  unfolding ensureLogin_def loadCookies_def saveCookies_def
  by (intro seq_all page_do_all emit_all ret_all throw_all)
     (auto intro!: seq_all page_do_all emit_all ret_all throw_all split: option.splits)
lemma login_inner: "login_event ev \<Longrightarrow> inner_event ev"
  by (cases ev) auto

lemma ensureLogin_inner: "list_all inner_event (snd (ensureLogin e b))"
  using ensureLogin_events [of e b] by (auto simp: list_all_iff login_inner)

lemma setUserAgent_inner: "list_all inner_event (snd (setUserAgent e b))"
  by (auto simp: setUserAgent_def intro!: when_all page_do_all ret_all split: option.splits)

lemmas inner_intros = seq_all page_do_all emit_all ret_all throw_all when_all
  ensureLogin_inner setUserAgent_inner

lemma scrapeProfile_trace:
  "\<exists>t. snd (scrapeProfile e b url login) = Call ScrapeProfile url None login # t
       \<and> list_all inner_event t"
  unfolding scrapeProfile_def autoScroll_def
  by (subst seq_emit) (auto intro!: inner_intros split: option.splits)

lemma scrapeCompany_trace:
  "\<exists>t. snd (scrapeCompany e b url login) = Call ScrapeCompany url None login # t
       \<and> list_all inner_event t"
  unfolding scrapeCompany_def autoScroll_def
  by (subst seq_emit) (auto intro!: inner_intros split: option.splits)

lemma scrapeProfilePosts_trace:
  "\<exists>t. snd (scrapeProfilePosts e d b url days login) = Call ScrapeProfilePosts url (Some days) login # t
       \<and> list_all inner_event t"
  unfolding scrapeProfilePosts_def autoScroll_def
  by (subst seq_emit) (auto intro!: inner_intros split: option.splits)

lemma scrapeCompanyPosts_trace:
  "\<exists>t. snd (scrapeCompanyPosts e d b url days login) = Call ScrapeCompanyPosts url (Some days) login # t
       \<and> list_all inner_event t"
  unfolding scrapeCompanyPosts_def autoScroll_def
  by (subst seq_emit) (auto intro!: inner_intros split: option.splits)

lemma scrapeCompanyJobs_trace:
  "\<exists>t. snd (scrapeCompanyJobs e b url login) = Call ScrapeCompanyJobs url None login # t
       \<and> list_all inner_event t"
  unfolding scrapeCompanyJobs_def autoScroll_def
  by (subst seq_emit) (auto intro!: inner_intros split: option.splits)

lemma written_append: "written (xs @ ys) = written xs @ written ys"
  by (induction xs rule: written.induct) auto

lemma written_inner: "list_all inner_event t \<Longrightarrow> written t = []"
  by (induction t rule: written.induct) auto

lemma call_trace:
  assumes "\<exists>t. tr = Call k u n login # t \<and> list_all inner_event t"
  shows "written tr = [] \<and> (\<forall>ev \<in> set tr. is_call ev \<longrightarrow> ev = Call k u n login)"
proof -
  from assms obtain t where tr: "tr = Call k u n login # t" and inner: "list_all inner_event t"
    by blast
  have "\<forall>ev \<in> set t. \<not> is_call ev"
  proof
    fix ev assume "ev \<in> set t"
    with inner have "inner_event ev" by (simp add: list_all_iff)
    then show "\<not> is_call ev" by (cases ev) auto
  qed
  with tr inner show ?thesis by (auto simp: written_inner)
qed

text \<open>The dispatch: every call carries the options the loop computed, and nothing is written.\<close>

lemma dispatch_trace:
  "written (snd (dispatch e d b t login)) = []
   \<and> (\<forall>ev \<in> set (snd (dispatch e d b t login)). is_call ev \<longrightarrow> (\<exists>k u n. ev = Call k u n login))"
proof -
  define days where "days = Num (case t_days t of None \<Rightarrow> 30 | Some n \<Rightarrow> if n = 0 then 30 else n)"
  have weaken: "written tr = [] \<and> (\<forall>ev \<in> set tr. is_call ev \<longrightarrow> (\<exists>k u n. ev = Call k u n login))"
    if "written tr = [] \<and> (\<forall>ev \<in> set tr. is_call ev \<longrightarrow> ev = Call k u n login)" for tr k u n
    using that by blast
  note facts =
    weaken [OF call_trace [OF scrapeProfile_trace [of e b "t_url t" login]]]
    weaken [OF call_trace [OF scrapeCompany_trace [of e b "t_url t" login]]]
    weaken [OF call_trace [OF scrapeCompanyJobs_trace [of e b "t_url t" login]]]
    weaken [OF call_trace [OF scrapeProfilePosts_trace [of e d b "t_url t" days login]]]
    weaken [OF call_trace [OF scrapeCompanyPosts_trace [of e d b "t_url t" days login]]]
  show ?thesis
    unfolding dispatch_def Let_def days_def [symmetric]
    using facts by (simp add: ret_def)
qed

lemma serve_snd:
  "snd (serve w m) =
     (case launch (w_browser w) of Some ex \<Rightarrow> [CreateBrowser]
      | None \<Rightarrow> CreateBrowser # snd m @ [CloseBrowser])"
  by (cases m) (auto simp: serve_def createBrowser_def split: option.splits sum.splits)

lemma serve_fst:
  "launch (w_browser w) = None \<Longrightarrow>
   fst (serve w m) = (case fst m of Inr v \<Rightarrow> Json 200 v | Inl ex \<Rightarrow> Json 500 (error_body (String_of ex)))"
  by (cases m) (auto simp: serve_def createBrowser_def split: option.splits sum.splits)

lemma page_do_fst: "fst (page_do b p) = (case throws b p of Some e \<Rightarrow> Inl e | None \<Rightarrow> Inr ())"
  by (simp add: page_do_def split: option.splits)

lemma page_do_snd: "snd (page_do b p) = [PageOp p]"
  by (simp add: page_do_def split: option.splits)

lemma serve_calls:
  assumes "\<exists>t. snd m = Call k u n l # t \<and> list_all inner_event t"
  shows "(\<forall>ev \<in> set (snd (serve w m)). is_call ev \<longrightarrow> ev = Call k u n l)
       \<and> (launch (w_browser w) = None \<longrightarrow> Call k u n l \<in> set (snd (serve w m)))"
proof -
  from call_trace [OF assms]
  have calls: "\<forall>ev \<in> set (snd m). is_call ev \<longrightarrow> ev = Call k u n l" by (rule conjunct2)
  from assms obtain t where "snd m = Call k u n l # t" by blast
  then have mem: "Call k u n l \<in> set (snd m)" by simp
  have all: "is_call ev \<longrightarrow> ev = Call k u n l" if "ev \<in> set (snd (serve w m))" for ev
  proof -
    from that consider "ev = CreateBrowser" | "ev = CloseBrowser" | "ev \<in> set (snd m)"
      by (auto simp: serve_snd split: option.splits)
    then show ?thesis
    proof cases
      case 3
      with calls show ?thesis by blast
    qed simp_all
  qed
  have one: "launch (w_browser w) = None \<longrightarrow> Call k u n l \<in> set (snd (serve w m))"
    using mem by (simp add: serve_snd)
  from all one show ?thesis by blast
qed

lemma setUserAgent_fst:
  "\<forall>ua. throws b (SetUserAgent ua) = None \<Longrightarrow> fst (setUserAgent e b) = Inr ()"
  by (simp add: setUserAgent_def when_io_def ret_def page_do_fst split: option.splits)

lemma ensureLogin_first: "\<exists>t. snd (ensureLogin e b) = EnsureLogin # t"
  by (simp add: ensureLogin_def seq_emit)

lemma seq_later: "fst m = Inr a \<Longrightarrow> ev \<in> set (snd (f a)) \<Longrightarrow> ev \<in> set (snd (seq m f))"
  by (simp add: seq_snd)

lemma seq_now: "ev \<in> set (snd m) \<Longrightarrow> ev \<in> set (snd (seq m f))"
  by (simp add: seq_snd)

lemma fst_emit: "fst (emit ev) = Inr ()"
  by (simp add: emit_def)

lemma login_engaged:
  assumes "throws b NewPage = None" and "\<forall>ua. throws b (SetUserAgent ua) = None"
    and "\<forall>u p. throws b (Authenticate u p) = None"
  shows "EnsureLogin \<in> set (snd (scrapeProfile e b url True))"
    and "EnsureLogin \<in> set (snd (scrapeProfilePosts e d b url days True))"
    and "EnsureLogin \<in> set (snd (scrapeCompany e b url True))"
    and "EnsureLogin \<in> set (snd (scrapeCompanyPosts e d b url days True))"
    and "EnsureLogin \<in> set (snd (scrapeCompanyJobs e b url True))"
proof -
  note ua = setUserAgent_fst [OF assms(2), of e]
  have np: "fst (page_do b NewPage) = Inr ()"
    using assms(1) by (simp add: page_do_fst)
  have auth: "fst (case (PROXY_USERNAME e, PROXY_PASSWORD e) of
            (Some u, Some p) \<Rightarrow> when_io (u \<noteq> [] \<and> p \<noteq> []) (page_do b (Authenticate u p))
          | _ \<Rightarrow> ret ()) = Inr ()"
    using assms(3) by (simp add: when_io_def ret_def page_do_fst split: option.splits)
  have here: "EnsureLogin \<in> set (snd (when_io True (ensureLogin e b)))"
    using ensureLogin_first [of e b] by (auto simp: when_io_def)
  show "EnsureLogin \<in> set (snd (scrapeProfile e b url True))"
    unfolding scrapeProfile_def
    by (rule seq_later [OF fst_emit], rule seq_later [OF np], rule seq_later [OF ua],
        rule seq_later [OF auth], rule seq_now, rule here)
  show "EnsureLogin \<in> set (snd (scrapeProfilePosts e d b url days True))"
    unfolding scrapeProfilePosts_def
    by (rule seq_later [OF fst_emit], rule seq_later [OF np], rule seq_later [OF ua],
        rule seq_now, rule here)
  show "EnsureLogin \<in> set (snd (scrapeCompany e b url True))"
    unfolding scrapeCompany_def
    by (rule seq_later [OF fst_emit], rule seq_later [OF np], rule seq_later [OF ua],
        rule seq_now, rule here)
  show "EnsureLogin \<in> set (snd (scrapeCompanyPosts e d b url days True))"
    unfolding scrapeCompanyPosts_def
    by (rule seq_later [OF fst_emit], rule seq_later [OF np], rule seq_later [OF ua],
        rule seq_now, rule here)
  show "EnsureLogin \<in> set (snd (scrapeCompanyJobs e b url True))"
    unfolding scrapeCompanyJobs_def
    by (rule seq_later [OF fst_emit], rule seq_later [OF np], rule seq_later [OF ua],
        rule seq_now, rule here)
qed


lemma throttled_calls:
  assumes "(\<forall>ev \<in> set t. is_call ev \<longrightarrow> ev = c) \<and> (ok \<longrightarrow> c \<in> set t)"
  shows "(\<forall>ev \<in> set (Throttled x # (if u then t else [])). is_call ev \<longrightarrow> ev = c)
       \<and> (u \<and> ok \<longrightarrow> c \<in> set (Throttled x # (if u then t else [])))"
proof -
  have "is_call ev \<longrightarrow> ev = c" if "ev \<in> set (Throttled x # (if u then t else []))" for ev
  proof -
    from that consider "ev = Throttled x" | "ev \<in> set t" by (auto split: if_splits)
    then show ?thesis
    proof cases
      case 2
      with assms show ?thesis by blast
    qed simp
  qed
  moreover have "u \<and> ok \<longrightarrow> c \<in> set (Throttled x # (if u then t else []))"
    using assms by simp
  ultimately show ?thesis by blast
qed

lemma get_profile_trace:
  "snd (snd (get_profile e w q lastRun)) =
     Throttled (throttle e (w_tick w) lastRun) #
       (if truthy (q_url q)
        then snd (serve w (scrapeProfile e (w_browser w) (q_url q) (want_login e (q_login q = Some ''1''))))
        else [])"
  by (simp add: get_profile_def Let_def split: prod.splits)

lemma get_profile_posts_trace:
  "snd (snd (get_profile_posts e d w q lastRun)) =
     Throttled (throttle e (w_tick w) lastRun) #
       (if truthy (q_url q)
        then snd (serve w (scrapeProfilePosts e d (w_browser w) (q_url q)
               (case q_days q of None \<Rightarrow> Num 30 | Some n \<Rightarrow> n) (want_login e (q_login q = Some ''1''))))
        else [])"
  by (simp add: get_profile_posts_def Let_def split: prod.splits)

lemma get_company_trace:
  "snd (snd (get_company e w q lastRun)) =
     Throttled (throttle e (w_tick w) lastRun) #
       (if truthy (q_url q)
        then snd (serve w (scrapeCompany e (w_browser w) (q_url q) (want_login e (q_login q = Some ''1''))))
        else [])"
  by (simp add: get_company_def Let_def split: prod.splits)

lemma get_company_posts_trace:
  "snd (snd (get_company_posts e d w q lastRun)) =
     Throttled (throttle e (w_tick w) lastRun) #
       (if truthy (q_url q)
        then snd (serve w (scrapeCompanyPosts e d (w_browser w) (q_url q)
               (case q_days q of None \<Rightarrow> Num 30 | Some n \<Rightarrow> n) (want_login e (q_login q = Some ''1''))))
        else [])"
  by (simp add: get_company_posts_def Let_def split: prod.splits)

lemma get_jobs_company_trace:
  "snd (snd (get_jobs_company e w q lastRun)) =
     Throttled (throttle e (w_tick w) lastRun) #
       (if truthy (q_url q)
        then snd (serve w (scrapeCompanyJobs e (w_browser w) (q_url q) (want_login e (q_login q = Some ''1''))))
        else [])"
  by (simp add: get_jobs_company_def Let_def split: prod.splits)

lemma single_task_calls:
  "(\<forall>ev \<in> set (snd (snd (get_profile e w q lastRun))). is_call ev \<longrightarrow>
       ev = Call ScrapeProfile (q_url q) None (want_login e (q_login q = Some ''1'')))
   \<and> (truthy (q_url q) \<and> launch (w_browser w) = None \<longrightarrow>
       Call ScrapeProfile (q_url q) None (want_login e (q_login q = Some ''1''))
         \<in> set (snd (snd (get_profile e w q lastRun))))"
  "(\<forall>ev \<in> set (snd (snd (get_profile_posts e d w q lastRun))). is_call ev \<longrightarrow>
       ev = Call ScrapeProfilePosts (q_url q) (Some (case q_days q of None \<Rightarrow> Num 30 | Some n \<Rightarrow> n))
              (want_login e (q_login q = Some ''1'')))
   \<and> (truthy (q_url q) \<and> launch (w_browser w) = None \<longrightarrow>
       Call ScrapeProfilePosts (q_url q) (Some (case q_days q of None \<Rightarrow> Num 30 | Some n \<Rightarrow> n))
              (want_login e (q_login q = Some ''1''))
         \<in> set (snd (snd (get_profile_posts e d w q lastRun))))"
  "(\<forall>ev \<in> set (snd (snd (get_company e w q lastRun))). is_call ev \<longrightarrow>
       ev = Call ScrapeCompany (q_url q) None (want_login e (q_login q = Some ''1'')))
   \<and> (truthy (q_url q) \<and> launch (w_browser w) = None \<longrightarrow>
       Call ScrapeCompany (q_url q) None (want_login e (q_login q = Some ''1''))
         \<in> set (snd (snd (get_company e w q lastRun))))"
  "(\<forall>ev \<in> set (snd (snd (get_company_posts e d w q lastRun))). is_call ev \<longrightarrow>
       ev = Call ScrapeCompanyPosts (q_url q) (Some (case q_days q of None \<Rightarrow> Num 30 | Some n \<Rightarrow> n))
              (want_login e (q_login q = Some ''1'')))
   \<and> (truthy (q_url q) \<and> launch (w_browser w) = None \<longrightarrow>
       Call ScrapeCompanyPosts (q_url q) (Some (case q_days q of None \<Rightarrow> Num 30 | Some n \<Rightarrow> n))
              (want_login e (q_login q = Some ''1''))
         \<in> set (snd (snd (get_company_posts e d w q lastRun))))"
  "(\<forall>ev \<in> set (snd (snd (get_jobs_company e w q lastRun))). is_call ev \<longrightarrow>
       ev = Call ScrapeCompanyJobs (q_url q) None (want_login e (q_login q = Some ''1'')))
   \<and> (truthy (q_url q) \<and> launch (w_browser w) = None \<longrightarrow>
       Call ScrapeCompanyJobs (q_url q) None (want_login e (q_login q = Some ''1''))
         \<in> set (snd (snd (get_jobs_company e w q lastRun))))"
  unfolding get_profile_trace get_profile_posts_trace get_company_trace get_company_posts_trace
    get_jobs_company_trace
  by (rule throttled_calls, rule serve_calls, rule scrapeProfile_trace,
      rule throttled_calls, rule serve_calls, rule scrapeProfilePosts_trace,
      rule throttled_calls, rule serve_calls, rule scrapeCompany_trace,
      rule throttled_calls, rule serve_calls, rule scrapeCompanyPosts_trace,
      rule throttled_calls, rule serve_calls, rule scrapeCompanyJobs_trace)

lemma dispatch_known:
  assumes "t_type tsk \<in> {Some ''profile'', Some ''profile_posts'', Some ''company'',
                          Some ''company_posts'', Some ''jobs_company''}"
  shows "\<exists>k n t. snd (dispatch e d b tsk login) = Call k (t_url tsk) n login # t"
proof -
  define days where "days = Num (case t_days tsk of None \<Rightarrow> 30 | Some n \<Rightarrow> if n = 0 then 30 else n)"
  from scrapeProfile_trace [of e b "t_url tsk" login]
    scrapeProfilePosts_trace [of e d b "t_url tsk" days login]
    scrapeCompany_trace [of e b "t_url tsk" login]
    scrapeCompanyPosts_trace [of e d b "t_url tsk" days login]
    scrapeCompanyJobs_trace [of e b "t_url tsk" login]
  have "(\<exists>k n t. snd (scrapeProfile e b (t_url tsk) login) = Call k (t_url tsk) n login # t)
      \<and> (\<exists>k n t. snd (scrapeProfilePosts e d b (t_url tsk) days login) = Call k (t_url tsk) n login # t)
      \<and> (\<exists>k n t. snd (scrapeCompany e b (t_url tsk) login) = Call k (t_url tsk) n login # t)
      \<and> (\<exists>k n t. snd (scrapeCompanyPosts e d b (t_url tsk) days login) = Call k (t_url tsk) n login # t)
      \<and> (\<exists>k n t. snd (scrapeCompanyJobs e b (t_url tsk) login) = Call k (t_url tsk) n login # t)"
    by blast
  with assms show ?thesis
    unfolding dispatch_def Let_def days_def [symmetric] by auto
qed

lemma queue_task_trace:
  "snd (snd (queue_task e d w stream tsk lastRun)) =
     Throttled (throttle e (w_tick w) lastRun) # CreateBrowser #
       (case launch (w_browser w) of
          Some ex \<Rightarrow> []
        | None \<Rightarrow> snd (dispatch e d (w_browser w) tsk (want_login e (t_login tsk = Some 1)))
            @ (if stream then [Write (line_of e d w tsk)] else []) @ [CloseBrowser])"
  by (simp add: queue_task_def Let_def createBrowser_def line_of_def split: option.splits prod.splits)

lemma queue_task_calls:
  "(\<forall>ev \<in> set (snd (snd (queue_task e d w stream tsk lastRun))).
      is_call ev \<longrightarrow> (\<exists>k u n. ev = Call k u n (want_login e (t_login tsk = Some 1))))
   \<and> (launch (w_browser w) = None
        \<and> t_type tsk \<in> {Some ''profile'', Some ''profile_posts'', Some ''company'',
                          Some ''company_posts'', Some ''jobs_company''} \<longrightarrow>
      (\<exists>k n. Call k (t_url tsk) n (want_login e (t_login tsk = Some 1))
          \<in> set (snd (snd (queue_task e d w stream tsk lastRun)))))"
proof -
  let ?l = "want_login e (t_login tsk = Some 1)"
  let ?tr = "snd (dispatch e d (w_browser w) tsk ?l)"
  have inner: "\<forall>ev \<in> set ?tr. is_call ev \<longrightarrow> (\<exists>k u n. ev = Call k u n ?l)"
    using dispatch_trace [of e d "w_browser w" tsk ?l] by (rule conjunct2)
  have all: "is_call ev \<longrightarrow> (\<exists>k u n. ev = Call k u n ?l)"
    if "ev \<in> set (snd (snd (queue_task e d w stream tsk lastRun)))" for ev
  proof -
    from that consider "\<not> is_call ev" | "ev \<in> set ?tr"
      by (auto simp: queue_task_trace split: option.splits if_splits)
    then show ?thesis
    proof cases
      case 2
      with inner show ?thesis by blast
    qed simp
  qed
  have one: "\<exists>k n. Call k (t_url tsk) n ?l \<in> set (snd (snd (queue_task e d w stream tsk lastRun)))"
    if "launch (w_browser w) = None"
      and "t_type tsk \<in> {Some ''profile'', Some ''profile_posts'', Some ''company'',
                          Some ''company_posts'', Some ''jobs_company''}"
  proof -
    from dispatch_known [OF that(2), of e d "w_browser w" ?l]
    obtain k n t where "?tr = Call k (t_url tsk) n ?l # t" by blast
    then have "Call k (t_url tsk) n ?l \<in> set (snd (snd (queue_task e d w stream tsk lastRun)))"
      using that(1) by (simp add: queue_task_trace)
    then show ?thesis by blast
  qed
  from all one show ?thesis by blast
qed

lemma queue_turn_Some:
  "queue_turn e d w stream (Some t) lastRun = queue_task e d w stream t lastRun"
  by (simp add: queue_turn_def)

lemma queue_task_events:
  assumes "launch (w_browser w) = None"
  shows "queue_task e d w stream t lastRun =
           (Inr (), throttle e (w_tick w) lastRun,
            turn_events e d w stream t (throttle e (w_tick w) lastRun))"
  using assms
  by (simp add: queue_task_def Let_def createBrowser_def turn_events_def line_of_def
      split: prod.splits)

lemma written_turn:
  "written (turn_events e d w stream t start) = (if stream then [line_of e d w t] else [])"
  using dispatch_trace [THEN conjunct1, of e d "w_browser w" t "want_login e (t_login t = Some 1)"]
  by (simp add: turn_events_def written_append)

lemma written_concat: "written (concat xss) = concat (map written xss)"
  by (induction xss) (simp_all add: written_append)

lemma queue_loop_shift:
  "queue_loop e d ws stream (Suc i) ts lastRun =
     queue_loop e d (\<lambda>j. ws (Suc j)) stream i ts lastRun"
  by (induction ts arbitrary: i lastRun) (simp_all split: prod.splits sum.splits)

lemma lastRun_after_shift:
  "lastRun_after e (\<lambda>j. ws (Suc j)) (throttle e (w_tick (ws 0)) lastRun) k =
     lastRun_after e ws lastRun (Suc k)"
  by (induction k) simp_all

lemma map_upt_Suc: "map f [0..<Suc n] = f 0 # map (\<lambda>j. f (Suc j)) [0..<n]"
proof -
  have "[0..<Suc n] = 0 # map Suc [0..<n]"
    by (simp add: upt_conv_Cons map_Suc_upt del: upt_Suc)
  then show ?thesis by (simp add: comp_def del: upt_Suc)
qed

lemma queue_loop_events:
  assumes "\<forall>j < length ts. launch (w_browser (ws j)) = None"
  shows "queue_loop e d ws stream 0 (map Some ts) lastRun =
           (Inr (), lastRun_after e ws lastRun (length ts),
            concat (map (\<lambda>j. turn_events e d (ws j) stream (ts ! j)
                                (lastRun_after e ws lastRun (Suc j))) [0..<length ts]))"
  using assms
proof (induction ts arbitrary: ws lastRun)
  case Nil
  show ?case by simp
next
  case (Cons t ts)
  let ?l = "throttle e (w_tick (ws 0)) lastRun"
  from Cons.prems have here: "launch (w_browser (ws 0)) = None" by auto
  from Cons.prems have rest: "\<forall>j < length ts. launch (w_browser (ws (Suc j))) = None" by auto
  have ih: "queue_loop e d (\<lambda>j. ws (Suc j)) stream 0 (map Some ts) ?l =
           (Inr (), lastRun_after e ws lastRun (Suc (length ts)),
            concat (map (\<lambda>j. turn_events e d (ws (Suc j)) stream (ts ! j)
                                (lastRun_after e ws lastRun (Suc (Suc j)))) [0..<length ts]))"
    using Cons.IH [of "\<lambda>j. ws (Suc j)" ?l] rest
    by (simp only: lastRun_after_shift)
  have here': "queue_turn e d (ws 0) stream (Some t) lastRun =
      (Inr (), ?l, turn_events e d (ws 0) stream t ?l)"
    using queue_task_events [OF here] by (simp add: queue_turn_Some)
  have idx: "map (\<lambda>j. turn_events e d (ws j) stream ((t # ts) ! j)
                        (lastRun_after e ws lastRun (Suc j))) [0..<Suc (length ts)] =
      turn_events e d (ws 0) stream t ?l
        # map (\<lambda>j. turn_events e d (ws (Suc j)) stream (ts ! j)
                       (lastRun_after e ws lastRun (Suc (Suc j)))) [0..<length ts]"
    by (subst map_upt_Suc) simp
  have "queue_loop e d ws stream 0 (map Some (t # ts)) lastRun =
      (Inr (), lastRun_after e ws lastRun (Suc (length ts)),
       turn_events e d (ws 0) stream t ?l
         @ concat (map (\<lambda>j. turn_events e d (ws (Suc j)) stream (ts ! j)
                       (lastRun_after e ws lastRun (Suc (Suc j)))) [0..<length ts]))"
    by (simp add: here' queue_loop_shift ih del: lastRun_after.simps)
  then show ?case
    by (simp only: idx length_Cons concat.simps list.map)
qed

lemma queue_task_silent: "written (snd (snd (queue_task e d w False t lastRun))) = []"
proof -
  have "written (snd (dispatch e d (w_browser w) t (want_login e (t_login t = Some 1)))) = []"
    using dispatch_trace [of e d "w_browser w" t "want_login e (t_login t = Some 1)"]
    by (rule conjunct1)
  then show ?thesis
    by (simp add: queue_task_trace written_append split: option.splits)
qed

lemma queue_turn_silent: "written (snd (snd (queue_turn e d w False el lastRun))) = []"
  by (cases el) (simp_all add: queue_turn_def Let_def queue_task_silent)

lemma queue_loop_silent: "written (snd (snd (queue_loop e d ws False i ts lastRun))) = []"
proof (induction ts arbitrary: i lastRun)
  case Nil
  show ?case by simp
next
  case (Cons t ts)
  obtain r lr tr where qt: "queue_turn e d (ws i) False t lastRun = (r, lr, tr)"
    by (cases "queue_turn e d (ws i) False t lastRun")
  have tr: "written tr = []"
    using queue_turn_silent [of e d "ws i" t lastRun] qt by simp
  show ?case
  proof (cases r)
    case (Inl ex)
    with qt tr show ?thesis by simp
  next
    case (Inr u)
    obtain r' lr' tr' where ql: "queue_loop e d ws False (Suc i) ts lr = (r', lr', tr')"
      by (cases "queue_loop e d ws False (Suc i) ts lr")
    with Cons.IH [of "Suc i" lr] have "written tr' = []" by simp
    with qt Inr ql tr show ?thesis by (simp add: written_append)
  qed
qed

section \<open>What the scrapers return\<close>

lemma seq_returns:
  assumes "fst (seq m f) = Inr v"
  obtains a where "fst m = Inr a" and "fst (f a) = Inr v"
  using assms by (auto simp: seq_fst split: sum.splits)

lemma fst_ret: "fst (ret a) = Inr v \<longleftrightarrow> a = v"
  by (simp add: ret_def)

lemma scrapeCompany_returns:
  assumes "fst (scrapeCompany e b url login) = Inr out"
    and "\<not> looksLikeCaptcha (page_url b) (html b)"
  shows "out = obj [(''url'', map_option JStr url), (''scrapedAt'', Some (JStr (stamp b))),
                    (''data'', Some (data b))]"
  using assms unfolding scrapeCompany_def
  by (auto elim!: seq_returns simp: fst_ret)

lemma scrapeProfile_returns:
  assumes "fst (scrapeProfile e b url login) = Inr out"
    and "\<not> looksLikeCaptcha (page_url b) (html b)"
  shows "out = obj [(''url'', map_option JStr url), (''scrapedAt'', Some (JStr (stamp b))),
                    (''data'', Some (data b))]"
  using assms unfolding scrapeProfile_def
  by (auto elim!: seq_returns simp: fst_ret)



lemma scrapeCompanyJobs_returns:
  assumes "fst (scrapeCompanyJobs e b url login) = Inr out"
  shows "\<exists>jobsUrl. out =
     obj [(''url'', Some (JStr jobsUrl)),
          (''scrapedAt'', Some (JStr (stamp b))),
          (''jobs'', Some (JArr (map job_json (take 50 (cards b)))))]"
  using assms unfolding scrapeCompanyJobs_def
  by (auto elim!: seq_returns simp: fst_ret)

text \<open>Runs in which no page operation throws and the login flow passes.\<close>

lemma when_fst: "fst (when_io c m) = (if c then fst m else Inr ())"
  by (simp add: when_io_def ret_def)

lemma fst_ret_eq: "fst (ret a) = Inr a"
  by (simp add: ret_def)

lemma ensureLogin_passes:
  assumes q: "\<forall>p. p \<notin> {AutoScroll, Evaluate, ClosePage} \<longrightarrow> throws b p = None"
    and l: "login_passes e b"
  shows "fst (ensureLogin e b) = Inr ()"
proof -
  have ops: "throws b GotoFeed = None" "throws b QueryUsername = None"
    "\<And>s. throws b (TypeUsername s) = None" "\<And>s. throws b (TypePassword s) = None"
    "throws b ClickSubmit = None"
    using q by simp_all
  show ?thesis
    using l
    by (auto simp: ensureLogin_def login_passes_def seq_fst fst_emit page_do_fst ops
        loadCookies_def saveCookies_def fst_ret_eq throw_def split: option.splits)
qed

lemma scrapeProfile_challenge:
  assumes c: "looksLikeCaptcha (page_url b) (html b)"
    and q: "\<forall>p. p \<notin> {AutoScroll, Evaluate, ClosePage} \<longrightarrow> throws b p = None"
    and l: "login \<longrightarrow> login_passes e b"
  shows "fst (scrapeProfile e b url login) = Inr (captcha_sentinel b)"
proof -
  have ops: "throws b NewPage = None" "\<forall>ua. throws b (SetUserAgent ua) = None"
    "\<forall>u p. throws b (Authenticate u p) = None" "\<And>u. throws b (Goto u) = None"
    "\<And>n. throws b (WaitForTimeout n) = None" "throws b Content = None"
    using q by simp_all
  show ?thesis
    unfolding scrapeProfile_def
    by (simp add: seq_fst fst_emit page_do_fst ops setUserAgent_fst when_io_def ret_def
        ensureLogin_passes [OF q] l c split: option.splits)
qed

lemma scrapeCompany_challenge:
  assumes c: "looksLikeCaptcha (page_url b) (html b)"
    and q: "\<forall>p. p \<notin> {AutoScroll, Evaluate, ClosePage} \<longrightarrow> throws b p = None"
    and l: "login \<longrightarrow> login_passes e b"
  shows "fst (scrapeCompany e b url login) = Inr (captcha_sentinel b)"
proof -
  have ops: "throws b NewPage = None" "\<forall>ua. throws b (SetUserAgent ua) = None"
    "\<And>u. throws b (Goto u) = None"
    "\<And>n. throws b (WaitForTimeout n) = None" "throws b Content = None"
    using q by simp_all
  show ?thesis
    unfolding scrapeCompany_def
    by (simp add: seq_fst fst_emit page_do_fst ops setUserAgent_fst when_fst
        ensureLogin_passes [OF q] l fst_ret_eq c)
qed

lemma scrapeCompany_smooth:
  assumes q: "\<forall>p. throws b p = None" and l: "login \<longrightarrow> login_passes e b"
    and c: "\<not> looksLikeCaptcha (page_url b) (html b)"
  shows "fst (scrapeCompany e b url login) =
           Inr (obj [(''url'', map_option JStr url), (''scrapedAt'', Some (JStr (stamp b))),
                     (''data'', Some (data b))])"
proof -
  from q have q': "\<forall>p. p \<notin> {AutoScroll, Evaluate, ClosePage} \<longrightarrow> throws b p = None" by simp
  show ?thesis
    unfolding scrapeCompany_def autoScroll_def
    by (simp add: seq_fst fst_emit page_do_fst q setUserAgent_fst when_fst
        ensureLogin_passes [OF q'] l fst_ret_eq c)
qed



lemma scrapeCompanyJobs_smooth:
  assumes q: "\<forall>p. throws b p = None" and l: "login \<longrightarrow> login_passes e b"
  shows "fst (scrapeCompanyJobs e b (Some u) login) =
           Inr (obj [(''url'', Some (JStr (with_slash u @ ''jobs/''))),
                     (''scrapedAt'', Some (JStr (stamp b))),
                     (''jobs'', Some (JArr (map job_json (take 50 (cards b)))))])"
proof -
  from q have q': "\<forall>p. p \<notin> {AutoScroll, Evaluate, ClosePage} \<longrightarrow> throws b p = None" by simp
  show ?thesis
    unfolding scrapeCompanyJobs_def autoScroll_def
    by (simp add: seq_fst fst_emit page_do_fst q setUserAgent_fst when_fst
        ensureLogin_passes [OF q'] l fst_ret_eq)
qed

lemma fst_case_prod: "fst (case p of (out, t) \<Rightarrow> (out, f t)) = fst p"
  by (cases p) simp

lemma handler_fst:
  assumes "truthy (q_url q)" and "launch (w_browser w) = None"
  shows "fst (get_profile e w q lastRun) =
           (case fst (scrapeProfile e (w_browser w) (q_url q) (want_login e (q_login q = Some ''1''))) of
              Inr v \<Rightarrow> Json 200 v | Inl ex \<Rightarrow> Json 500 (error_body (String_of ex)))"
    and "fst (get_company e w q lastRun) =
           (case fst (scrapeCompany e (w_browser w) (q_url q) (want_login e (q_login q = Some ''1''))) of
              Inr v \<Rightarrow> Json 200 v | Inl ex \<Rightarrow> Json 500 (error_body (String_of ex)))"
    and "fst (get_jobs_company e w q lastRun) =
           (case fst (scrapeCompanyJobs e (w_browser w) (q_url q) (want_login e (q_login q = Some ''1''))) of
              Inr v \<Rightarrow> Json 200 v | Inl ex \<Rightarrow> Json 500 (error_body (String_of ex)))"
    and "fst (get_profile_posts e d w q lastRun) =
           (case fst (scrapeProfilePosts e d (w_browser w) (q_url q)
                        (case q_days q of None \<Rightarrow> Num 30 | Some n \<Rightarrow> n)
                        (want_login e (q_login q = Some ''1''))) of
              Inr v \<Rightarrow> Json 200 v | Inl ex \<Rightarrow> Json 500 (error_body (String_of ex)))"
    and "fst (get_company_posts e d w q lastRun) =
           (case fst (scrapeCompanyPosts e d (w_browser w) (q_url q)
                        (case q_days q of None \<Rightarrow> Num 30 | Some n \<Rightarrow> n)
                        (want_login e (q_login q = Some ''1''))) of
              Inr v \<Rightarrow> Json 200 v | Inl ex \<Rightarrow> Json 500 (error_body (String_of ex)))"
  using assms
  by (simp_all add: get_profile_def get_company_def get_jobs_company_def get_profile_posts_def
      get_company_posts_def Let_def fst_case_prod serve_fst)

section \<open>Lines of the streamed body\<close>

lemma digit_nl: "n < 16 \<Longrightarrow> digit n \<noteq> CHR 0x0A"
proof -
  assume "n < 16"
  have "digit n \<in> set ''0123456789abcdef''"
    unfolding digit_def by (intro nth_mem) simp
  then show ?thesis by auto
qed

lemma dec_nl: "CHR 0x0A \<notin> set (dec n)"
proof (induction n rule: dec.induct)
  case (1 n)
  show ?case
  proof (cases "n < 10")
    case True
    then have "digit n \<noteq> CHR 0x0A" by (intro digit_nl) simp
    with True show ?thesis by (subst dec.simps) auto
  next
    case False
    have "digit (n mod 10) \<noteq> CHR 0x0A" by (intro digit_nl) simp
    with False 1 show ?thesis by (subst dec.simps) auto
  qed
qed

lemma escape_nl: "CHR 0x0A \<notin> set (escape c)"
proof -
  have "c = CHR 0x0A \<Longrightarrow> (of_char c :: nat) = 10" by simp
  moreover have "(of_char c :: nat) < 32 \<Longrightarrow> digit (of_char c div 16) \<noteq> CHR 0x0A"
    by (intro digit_nl) simp
  moreover have "digit (of_char c mod 16) \<noteq> CHR 0x0A"
    by (intro digit_nl) simp
  ultimately show ?thesis
    by (auto simp: escape_def Let_def)
qed

lemma quote_nl: "CHR 0x0A \<notin> set (quote s)"
  using escape_nl by (auto simp: quote_def)

lemma commas_nl: "(\<And>x. x \<in> set xs \<Longrightarrow> CHR 0x0A \<notin> set x) \<Longrightarrow> CHR 0x0A \<notin> set (commas xs)"
  by (induction xs rule: commas.induct) auto

lemma dec_nonempty: "dec n \<noteq> []"
  by (subst dec.simps) simp

lemma exponent_form_nl: "CHR 0x0A \<notin> set (exponent_form sd m)"
proof -
  have "hd (dec (sd m)) \<in> set (dec (sd m))"
    by (rule hd_in_set) (rule dec_nonempty)
  then have h: "hd (dec (sd m)) \<noteq> CHR 0x0A"
    using dec_nl [of "sd m"] by auto
  have t: "CHR 0x0A \<notin> set (tl (dec (sd m)))"
    using dec_nl [of "sd m"] by (auto dest: list.set_sel(2) [OF dec_nonempty])
  from h t show ?thesis
    by (simp add: exponent_form_def Let_def dec_nl)
qed

lemma num_text_nl: "CHR 0x0A \<notin> set (num_text sd n)"
  by (simp add: num_text_def Let_def dec_nl exponent_form_nl)

lemma num_text_example:
  "num_text sd 30 = ''30'' \<and> num_text sd (- 7) = ''-7''
   \<and> num_text (\<lambda>m. 15) 1500000000000000000000 = ''1.5e+21''"
  by (simp add: num_text_def exponent_form_def dec.simps digit_def)

lemma stringify_nl: "CHR 0x0A \<notin> set (stringify sd v)"
proof (induction v)
  case (JArr vs)
  have "CHR 0x0A \<notin> set (commas (map (stringify sd) vs))"
    by (rule commas_nl) (use JArr in auto)
  then show ?case by simp
next
  case (JObj kvs)
  have "CHR 0x0A \<notin> set (commas (map (\<lambda>kv. quote (fst kv) @ '':'' @ stringify sd (snd kv)) kvs))"
  proof (rule commas_nl)
    fix x assume "x \<in> set (map (\<lambda>kv. quote (fst kv) @ '':'' @ stringify sd (snd kv)) kvs)"
    then obtain kv where kv: "kv \<in> set kvs" and x: "x = quote (fst kv) @ '':'' @ stringify sd (snd kv)"
      by auto
    from JObj [OF kv, of "snd kv"] have "CHR 0x0A \<notin> set (stringify sd (snd kv))"
      by (cases kv) simp
    with x show "CHR 0x0A \<notin> set x" by (simp add: quote_nl)
  qed
  then show ?case by simp
qed (auto simp: num_text_nl quote_nl)

lemma lines_from_line:
  "CHR 0x0A \<notin> set l \<Longrightarrow> lines_from cur (l @ CHR 0x0A # rest) = (cur @ l) # lines_from [] rest"
  by (induction l arbitrary: cur) auto

lemma text_lines_body: "text_lines (body_text sd tr) = map (stringify sd) (written tr)"
proof -
  have "lines_from [] (concat (map (\<lambda>v. stringify sd v @ [CHR 0x0A]) vs)) = map (stringify sd) vs" for vs
  proof (induction vs)
    case Nil
    show ?case by simp
  next
    case (Cons v vs)
    show ?case
      using lines_from_line [OF stringify_nl, of "[]" sd v] Cons by simp
  qed
  then show ?thesis by (simp add: text_lines_def body_text_def)
qed

lemma envelope_fields:
  "field (envelope t r) ''ok'' = Some (JBool (case r of Inr _ \<Rightarrow> True | Inl _ \<Rightarrow> False))
   \<and> field (envelope t r) ''type'' = map_option JStr (t_type t)
   \<and> field (envelope t r) ''url'' = map_option JStr (t_url t)"
  by (cases "t_type t"; cases "t_url t"; cases r) (simp_all add: envelope_def obj_def)

lemma post_queue_events:
  assumes "b_tasks bd = Some (map Some ts)" and "ts \<noteq> []"
    and "\<forall>i < length ts. launch (w_browser (ws i)) = None"
  shows "post_queue e d ws bd lastRun =
           ((if (case b_stream bd of None \<Rightarrow> True | Some v \<Rightarrow> truthy_json v) then End
             else Json 200 (JObj [(''ok'', JBool True)])),
            lastRun_after e ws lastRun (length ts),
            (if (case b_stream bd of None \<Rightarrow> True | Some v \<Rightarrow> truthy_json v)
             then [SetHeader ''Content-Type'' ''application/x-ndjson''] else [])
            @ concat (map (\<lambda>i. turn_events e d (ws i)
                                  (case b_stream bd of None \<Rightarrow> True | Some v \<Rightarrow> truthy_json v)
                                  (ts ! i) (lastRun_after e ws lastRun (Suc i))) [0..<length ts]))"
  using assms(1,2)
  by (simp add: post_queue_def Let_def queue_loop_events [OF assms(3)] obj_def
      del: lastRun_after.simps)

lemma written_turns:
  "written (concat (map (\<lambda>i. turn_events e d (ws i) stream (ts ! i) (f i)) js)) =
     (if stream then map (\<lambda>i. line_of e d (ws i) (ts ! i)) js else [])"
  by (induction js) (simp_all add: written_append written_turn)



section \<open>The throttle\<close>

lemma floor_scaled:
  fixes r :: real and k :: int
  assumes "0 \<le> r" "r < 1" "0 < k"
  shows "0 \<le> \<lfloor>r * real_of_int k\<rfloor> \<and> \<lfloor>r * real_of_int k\<rfloor> < k"
proof -
  have lo: "0 \<le> r * real_of_int k" using assms(1,3) by simp
  have "r * real_of_int k < 1 * real_of_int k"
    using assms(2,3) by (intro mult_strict_right_mono) simp_all
  then have hi: "r * real_of_int k < real_of_int k" by simp
  from lo have "0 \<le> \<lfloor>r * real_of_int k\<rfloor>" by simp
  moreover from hi have "\<lfloor>r * real_of_int k\<rfloor> < k" by (simp only: floor_less_iff)
  ultimately show ?thesis by simp
qed

lemma wait_ms_bounds:
  assumes "0 \<le> r" "r < 1" "rate_min e \<le> rate_max e"
  shows "rate_min e \<le> wait_ms e r \<and> wait_ms e r \<le> rate_max e"
proof -
  have "0 < rate_max e - rate_min e + 1" using assms(3) by simp
  from floor_scaled [OF assms(1,2) this] show ?thesis
    unfolding wait_ms_def by linarith
qed

lemma timer_exact: "1 \<le> ms \<Longrightarrow> ms \<le> 2147483647 \<Longrightarrow> timer_ms ms = ms"
  by (simp add: timer_ms_def)

lemma throttle_exact:
  assumes "lastRun \<le> t_now tk" and "wait_ms e (t_rnd tk) \<le> 2147483647"
  shows "throttle e tk lastRun =
           (if t_now tk - lastRun < wait_ms e (t_rnd tk) then lastRun + wait_ms e (t_rnd tk)
            else t_now tk) + int (t_late tk)"
proof (cases "t_now tk - lastRun < wait_ms e (t_rnd tk)")
  case True
  with assms have "timer_ms (wait_ms e (t_rnd tk) - (t_now tk - lastRun))
      = wait_ms e (t_rnd tk) - (t_now tk - lastRun)"
    by (intro timer_exact) simp_all
  with True show ?thesis by (simp add: throttle_def Let_def)
next
  case False
  then show ?thesis by (simp add: throttle_def Let_def)
qed

lemma throttle_gap:
  assumes "lastRun \<le> t_now tk" and "wait_ms e (t_rnd tk) \<le> 2147483647"
  shows "lastRun + wait_ms e (t_rnd tk) \<le> throttle e tk lastRun"
  by (simp add: throttle_exact [OF assms])


lemma throttle_call:
  assumes "g_asleep g = []"
  shows "throttle_steps e [Enter i tk, Leave i] g =
           g\<lparr>g_lastRun := throttle e tk (g_lastRun g), g_asleep := [],
             g_starts := g_starts g @ [throttle e tk (g_lastRun g)]\<rparr>"
  using assms by simp

text \<open>
  Two calls that overlap: the second one enters 10 ms after the first, while
  the first one sleeps, reads the same \<^verbatim>\<open>lastRun\<close> and wakes at the same
  time, so that both record the same start.
\<close>

lemma throttle_overlap:
  "throttle_steps env1000
     [Enter 0 \<lparr>t_now = 7000, t_rnd = 0, t_late = 0\<rparr>, Enter 1 \<lparr>t_now = 7010, t_rnd = 0, t_late = 0\<rparr>,
      Leave 0, Leave 1]
     \<lparr>g_lastRun = 7000, g_asleep = [], g_starts = [7000]\<rparr>
   = \<lparr>g_lastRun = 8000, g_asleep = [], g_starts = [7000, 8000, 8000]\<rparr>"
  by (simp add: env1000_def env0_def throttle_def timer_ms_def wait_ms_def rate_min_def rate_max_def)

text \<open>Unfolding the model on concrete inputs.\<close>

lemmas run_simps =
  post_queue_def queue_task_def dispatch_def envelope_def serve_def
  get_profile_def get_profile_posts_def get_company_def get_company_posts_def get_jobs_company_def
  scrapeProfile_def scrapeProfilePosts_def scrapeCompany_def scrapeCompanyPosts_def
  scrapeCompanyJobs_def ensureLogin_def loadCookies_def saveCookies_def
  Let_def createBrowser_def setUserAgent_def when_io_def want_login_def autoScroll_def
  seq_page_do seq_emit seq_ret seq_throw seq_Inr seq_Inl ret_def looksLikeCaptcha_def lower_def
  captcha_sentinel_def with_slash_def
  throttle_def timer_ms_def wait_ms_def rate_min_def rate_max_def env0_def world0_def calm_def
  obj_def world_with_def queue_turn_def no_login_def


lemmas page_simps = profile_item_def company_item_def keep_def item_json_def job_json_def js_or_def
  dayjs0_def dated_def hiring_def blocked_def stalled_def

section \<open>The claims\<close>

subsection \<open>C1: a task of unknown type\<close>

text \<open>
  C1 as stated fails: a queue task of type \<^verbatim>\<open>video\<close>, streamed, is written as an
  envelope with \<^verbatim>\<open>ok: true\<close>; the marker \<^verbatim>\<open>unknown_type\<close> sits inside its
  \<^verbatim>\<open>result\<close>, not beside \<^verbatim>\<open>ok: false\<close>.
\<close>

theorem unknown_type_counterexample:
  "written (snd (snd (post_queue env0 dayjs0 (\<lambda>_. world0)
     \<lparr>b_stream = Some (JBool True),
      b_tasks = Some [Some \<lparr>t_type = Some ''video'', t_url = Some ''https://example.com/v/1'',
                             t_days = None, t_login = None\<rparr>]\<rparr> 0)))
   = [JObj [(''ok'', JBool True), (''type'', JStr ''video''), (''url'', JStr ''https://example.com/v/1''),
            (''result'', JObj [(''error'', JStr ''unknown_type''), (''type'', JStr ''video''),
                               (''url'', JStr ''https://example.com/v/1'')])]]"
  by (simp add: run_simps)

text \<open>
  C1 (amended). For every queue task whose type is none of \<^verbatim>\<open>profile\<close>,
  \<^verbatim>\<open>profile_posts\<close>, \<^verbatim>\<open>company\<close>, \<^verbatim>\<open>company_posts\<close>, \<^verbatim>\<open>jobs_company\<close>,
  the dispatch returns \<^verbatim>\<open>{error: "unknown_type", type, url}\<close> without any
  effect, the envelope of the task (once its browser has launched) is
  \<^verbatim>\<open>{ok: true, type, url, result: {error: "unknown_type", type, url}}\<close>, written
  as a line when streaming, and no scraper is entered during the task.
\<close>

theorem unknown_type_envelope:
  assumes "t_type tsk \<notin> {Some ''profile'', Some ''profile_posts'', Some ''company'',
                           Some ''company_posts'', Some ''jobs_company''}"
  shows "dispatch e d b tsk login =
           (Inr (obj [(''error'', Some (JStr ''unknown_type'')),
                      (''type'', map_option JStr (t_type tsk)),
                      (''url'', map_option JStr (t_url tsk))]), [])
       \<and> (launch (w_browser w) = None \<longrightarrow>
            queue_task e d w stream tsk lastRun =
              (Inr (), throttle e (w_tick w) lastRun,
               [Throttled (throttle e (w_tick w) lastRun), CreateBrowser]
               @ (if stream
                  then [Write (obj [(''ok'', Some (JBool True)),
                                    (''type'', map_option JStr (t_type tsk)),
                                    (''url'', map_option JStr (t_url tsk)),
                                    (''result'', Some (obj [(''error'', Some (JStr ''unknown_type'')),
                                                            (''type'', map_option JStr (t_type tsk)),
                                                            (''url'', map_option JStr (t_url tsk))]))])]
                  else [])
               @ [CloseBrowser]))
       \<and> (\<forall>ev \<in> set (snd (snd (queue_task e d w stream tsk lastRun))). \<not> is_call ev)"
proof -
  have disp: "dispatch e d b tsk login =
           (Inr (obj [(''error'', Some (JStr ''unknown_type'')),
                      (''type'', map_option JStr (t_type tsk)),
                      (''url'', map_option JStr (t_url tsk))]), [])" for b login
    using assms by (simp add: dispatch_def Let_def ret_def)
  have calls: "\<forall>ev \<in> set (snd (snd (queue_task e d w stream tsk lastRun))). \<not> is_call ev"
    by (auto simp: queue_task_def Let_def createBrowser_def disp split: option.splits)
  have task: "launch (w_browser w) = None \<longrightarrow>
            queue_task e d w stream tsk lastRun =
              (Inr (), throttle e (w_tick w) lastRun,
               [Throttled (throttle e (w_tick w) lastRun), CreateBrowser]
               @ (if stream
                  then [Write (obj [(''ok'', Some (JBool True)),
                                    (''type'', map_option JStr (t_type tsk)),
                                    (''url'', map_option JStr (t_url tsk)),
                                    (''result'', Some (obj [(''error'', Some (JStr ''unknown_type'')),
                                                            (''type'', map_option JStr (t_type tsk)),
                                                            (''url'', map_option JStr (t_url tsk))]))])]
                  else [])
               @ [CloseBrowser])"
    by (simp add: queue_task_def Let_def createBrowser_def disp envelope_def)
  from disp calls task show ?thesis by blast
qed

theorem unknown_type_envelope_witness:
  "queue_task env0 dayjs0 world0 True
     \<lparr>t_type = Some ''video'', t_url = Some ''https://example.com/v/1'', t_days = None, t_login = Some 1\<rparr> 0
   = (Inr (), 1711000000000,
      [Throttled 1711000000000, CreateBrowser,
       Write (JObj [(''ok'', JBool True), (''type'', JStr ''video''),
                    (''url'', JStr ''https://example.com/v/1''),
                    (''result'', JObj [(''error'', JStr ''unknown_type''), (''type'', JStr ''video''),
                                       (''url'', JStr ''https://example.com/v/1'')])]),
       CloseBrowser])"
  using unknown_type_envelope [of
      "\<lparr>t_type = Some ''video'', t_url = Some ''https://example.com/v/1'', t_days = None, t_login = Some 1\<rparr>"
      env0 dayjs0 calm True world0 True 0]
  by (simp add: throttle_def timer_ms_def wait_ms_def rate_min_def rate_max_def env0_def world0_def
      calm_def obj_def)

subsection \<open>C2: one line per task\<close>

text \<open>
  C2 as stated fails, in three ways. A list whose only element is \<^verbatim>\<open>null\<close>:
  the read of \<^verbatim>\<open>t.login\<close> throws outside the \<^verbatim>\<open>try\<close>, the handler's promise
  rejects after the header and no line is written for a list of length one.
  A task whose browser does not launch: \<^verbatim>\<open>createBrowser()\<close> is awaited outside
  the \<^verbatim>\<open>try\<close> as well, with the same end. And the example: the envelope of a
  company task whose collaborator \<^verbatim>\<open>scrapeCompany\<close> returns \<^verbatim>\<open>{name: "Acme"}\<close>
  has that object as its \<^verbatim>\<open>result\<close>, not an object with \<^verbatim>\<open>url\<close>, \<^verbatim>\<open>scrapedAt\<close>
  and \<^verbatim>\<open>data\<close>.
\<close>

theorem queue_stream_counterexample:
  "post_queue env0 dayjs0 (\<lambda>_. world0) \<lparr>b_stream = Some (JBool True), b_tasks = Some [None]\<rparr> 0
   = (Unhandled (JsError ''TypeError'' ''Cannot read properties of null (reading 'login')''),
      1711000000000,
      [SetHeader ''Content-Type'' ''application/x-ndjson'', Throttled 1711000000000])
   \<and> post_queue env0 dayjs0 (\<lambda>_. world_with down)
     \<lparr>b_stream = Some (JBool True),
      b_tasks = Some [Some \<lparr>t_type = Some ''company'', t_url = Some ''https://example.com/company/acme'',
                             t_days = None, t_login = None\<rparr>]\<rparr> 0
   = (Unhandled (JsError ''Error'' ''Failed to launch the browser process!''), 1711000000000,
      [SetHeader ''Content-Type'' ''application/x-ndjson'', Throttled 1711000000000, CreateBrowser])
   \<and> envelope \<lparr>t_type = Some ''company'', t_url = Some ''https://example.com/company/acme'',
                 t_days = None, t_login = None\<rparr> (Inr (JObj [(''name'', JStr ''Acme'')]))
   = JObj [(''ok'', JBool True), (''type'', JStr ''company''),
           (''url'', JStr ''https://example.com/company/acme''),
           (''result'', JObj [(''name'', JStr ''Acme'')])]"
  by (simp add: run_simps down_def)

text \<open>
  C2 (amended). For every non-empty list of \<open>N\<close> task objects (no element
  \<^verbatim>\<open>null\<close>) posted with \<^verbatim>\<open>stream: true\<close>, if the browser launches for every
  task then the handler sets the NDJSON header, gives every task its turn in
  the order of the list and ends the response; the body holds exactly \<open>N\<close>
  lines, the \<open>i\<close>-th line being the JSON text of the envelope of the \<open>i\<close>-th
  task: an object with a boolean \<^verbatim>\<open>ok\<close> and the task's \<^verbatim>\<open>type\<close> and \<^verbatim>\<open>url\<close>,
  whose \<^verbatim>\<open>result\<close> is whatever the collaborator returned. For a first task of
  type \<^verbatim>\<open>company\<close> with url \<open>u\<close>, on a page that is no challenge, where no page
  operation throws and the login flow (if asked for) passes, that envelope is
  \<^verbatim>\<open>{ok: true, type: "company", url: u, result: {url: u, scrapedAt, data}}\<close>
  with \<^verbatim>\<open>data\<close> the object the page extraction inside \<^verbatim>\<open>scrapeCompany\<close> yields.
\<close>

theorem queue_stream_lines:
  assumes "b_stream bd = Some (JBool True)" and "b_tasks bd = Some (map Some ts)" and "ts \<noteq> []"
    and "\<forall>i < length ts. launch (w_browser (ws i)) = None"
  shows "post_queue e d ws bd lastRun =
           (End, lastRun_after e ws lastRun (length ts),
            SetHeader ''Content-Type'' ''application/x-ndjson''
              # concat (map (\<lambda>i. turn_events e d (ws i) True (ts ! i)
                                    (lastRun_after e ws lastRun (Suc i))) [0..<length ts]))
       \<and> text_lines (body_text sd (snd (snd (post_queue e d ws bd lastRun)))) =
           map (\<lambda>i. stringify sd (line_of e d (ws i) (ts ! i))) [0..<length ts]
       \<and> length (text_lines (body_text sd (snd (snd (post_queue e d ws bd lastRun))))) = length ts
       \<and> (\<forall>i < length ts.
             field (line_of e d (ws i) (ts ! i)) ''ok'' \<in> {Some (JBool True), Some (JBool False)}
           \<and> field (line_of e d (ws i) (ts ! i)) ''type'' = map_option JStr (t_type (ts ! i))
           \<and> field (line_of e d (ws i) (ts ! i)) ''url'' = map_option JStr (t_url (ts ! i))
           \<and> (\<forall>out. fst (dispatch e d (w_browser (ws i)) (ts ! i)
                            (want_login e (t_login (ts ! i) = Some 1))) = Inr out \<longrightarrow>
                 line_of e d (ws i) (ts ! i) =
                   obj [(''ok'', Some (JBool True)),
                        (''type'', map_option JStr (t_type (ts ! i))),
                        (''url'', map_option JStr (t_url (ts ! i))),
                        (''result'', Some out)]))
       \<and> (t_type (ts ! 0) = Some ''company'' \<and> t_url (ts ! 0) = Some u
            \<and> (\<forall>p. throws (w_browser (ws 0)) p = None)
            \<and> (want_login e (t_login (ts ! 0) = Some 1) \<longrightarrow> login_passes e (w_browser (ws 0)))
            \<and> \<not> looksLikeCaptcha (page_url (w_browser (ws 0))) (html (w_browser (ws 0)))
          \<longrightarrow> line_of e d (ws 0) (ts ! 0) =
                JObj [(''ok'', JBool True), (''type'', JStr ''company''), (''url'', JStr u),
                      (''result'', JObj [(''url'', JStr u),
                                         (''scrapedAt'', JStr (stamp (w_browser (ws 0)))),
                                         (''data'', data (w_browser (ws 0)))])])"
proof -
  let ?tr = "snd (snd (post_queue e d ws bd lastRun))"
  have run: "post_queue e d ws bd lastRun =
           (End, lastRun_after e ws lastRun (length ts),
            SetHeader ''Content-Type'' ''application/x-ndjson''
              # concat (map (\<lambda>i. turn_events e d (ws i) True (ts ! i)
                                    (lastRun_after e ws lastRun (Suc i))) [0..<length ts]))"
    using post_queue_events [OF assms(2,3,4), of e d lastRun] assms(1)
    by (simp del: lastRun_after.simps)
  have wr: "written ?tr = map (\<lambda>i. line_of e d (ws i) (ts ! i)) [0..<length ts]"
    unfolding run by (simp add: written_turns del: lastRun_after.simps)
  have lines: "text_lines (body_text sd ?tr) =
      map (\<lambda>i. stringify sd (line_of e d (ws i) (ts ! i))) [0..<length ts]"
    using wr by (simp add: text_lines_body comp_def)
  have count: "length (text_lines (body_text sd ?tr)) = length ts"
    using lines by simp
  have shape: "\<forall>i < length ts.
             field (line_of e d (ws i) (ts ! i)) ''ok'' \<in> {Some (JBool True), Some (JBool False)}
           \<and> field (line_of e d (ws i) (ts ! i)) ''type'' = map_option JStr (t_type (ts ! i))
           \<and> field (line_of e d (ws i) (ts ! i)) ''url'' = map_option JStr (t_url (ts ! i))
           \<and> (\<forall>out. fst (dispatch e d (w_browser (ws i)) (ts ! i)
                            (want_login e (t_login (ts ! i) = Some 1))) = Inr out \<longrightarrow>
                 line_of e d (ws i) (ts ! i) =
                   obj [(''ok'', Some (JBool True)),
                        (''type'', map_option JStr (t_type (ts ! i))),
                        (''url'', map_option JStr (t_url (ts ! i))),
                        (''result'', Some out)])"
    unfolding line_of_def using envelope_fields by (auto simp: envelope_def split: sum.splits)
  have example: "t_type (ts ! 0) = Some ''company'' \<and> t_url (ts ! 0) = Some u
            \<and> (\<forall>p. throws (w_browser (ws 0)) p = None)
            \<and> (want_login e (t_login (ts ! 0) = Some 1) \<longrightarrow> login_passes e (w_browser (ws 0)))
            \<and> \<not> looksLikeCaptcha (page_url (w_browser (ws 0))) (html (w_browser (ws 0)))
          \<longrightarrow> line_of e d (ws 0) (ts ! 0) =
                JObj [(''ok'', JBool True), (''type'', JStr ''company''), (''url'', JStr u),
                      (''result'', JObj [(''url'', JStr u),
                                         (''scrapedAt'', JStr (stamp (w_browser (ws 0)))),
                                         (''data'', data (w_browser (ws 0)))])]"
  proof (intro impI, elim conjE)
    assume ty: "t_type (ts ! 0) = Some ''company''" and url: "t_url (ts ! 0) = Some u"
      and q: "\<forall>p. throws (w_browser (ws 0)) p = None"
      and l: "want_login e (t_login (ts ! 0) = Some 1) \<longrightarrow> login_passes e (w_browser (ws 0))"
      and nc: "\<not> looksLikeCaptcha (page_url (w_browser (ws 0))) (html (w_browser (ws 0)))"
    from scrapeCompany_smooth [OF q l nc] ty url
    show "line_of e d (ws 0) (ts ! 0) =
                JObj [(''ok'', JBool True), (''type'', JStr ''company''), (''url'', JStr u),
                      (''result'', JObj [(''url'', JStr u),
                                         (''scrapedAt'', JStr (stamp (w_browser (ws 0)))),
                                         (''data'', data (w_browser (ws 0)))])]"
      by (simp add: line_of_def dispatch_def envelope_def obj_def Let_def)
  qed
  from run lines count shape example show ?thesis by blast
qed

theorem queue_stream_lines_witness:
  \<open>text_lines (body_text (\<lambda>m. m) (snd (snd (post_queue env0 dayjs0 (\<lambda>_. world0)
     \<lparr>b_stream = Some (JBool True),
      b_tasks = Some [Some \<lparr>t_type = Some ''company'', t_url = Some ''https://example.com/company/acme'',
                             t_days = None, t_login = None\<rparr>,
                      Some \<lparr>t_type = Some ''video'', t_url = Some ''https://example.com/v/1'',
                             t_days = None, t_login = None\<rparr>]\<rparr> 0)))) =
   [''{"ok":true,"type":"company","url":"https://example.com/company/acme","result":{"url":"https://example.com/company/acme","scrapedAt":"2024-03-21T05:46:40.000Z","data":{"name":"Acme"}}}'',
    ''{"ok":true,"type":"video","url":"https://example.com/v/1","result":{"error":"unknown_type","type":"video","url":"https://example.com/v/1"}}'']
   \<and> fst (post_queue env0 dayjs0 (\<lambda>_. world0)
     \<lparr>b_stream = Some (JBool True),
      b_tasks = Some [Some \<lparr>t_type = Some ''company'', t_url = Some ''https://example.com/company/acme'',
                             t_days = None, t_login = None\<rparr>,
                      Some \<lparr>t_type = Some ''video'', t_url = Some ''https://example.com/v/1'',
                             t_days = None, t_login = None\<rparr>]\<rparr> 0) = End
   \<and> line_of env0 dayjs0 world0
        \<lparr>t_type = Some ''company'', t_url = Some ''https://example.com/company/acme'',
         t_days = None, t_login = None\<rparr> =
       JObj [(''ok'', JBool True), (''type'', JStr ''company''),
             (''url'', JStr ''https://example.com/company/acme''),
             (''result'', JObj [(''url'', JStr ''https://example.com/company/acme''),
                                (''scrapedAt'', JStr ''2024-03-21T05:46:40.000Z''),
                                (''data'', JObj [(''name'', JStr ''Acme'')])])]\<close>
proof -
  let ?t1 = "\<lparr>t_type = Some ''company'', t_url = Some ''https://example.com/company/acme'',
               t_days = None, t_login = None\<rparr>"
  let ?t2 = "\<lparr>t_type = Some ''video'', t_url = Some ''https://example.com/v/1'',
               t_days = None, t_login = None\<rparr>"
  let ?bd = "\<lparr>b_stream = Some (JBool True), b_tasks = Some [Some ?t1, Some ?t2]\<rparr>"
  have h: "b_stream ?bd = Some (JBool True)" "b_tasks ?bd = Some (map Some [?t1, ?t2])"
    "[?t1, ?t2] \<noteq> []" "\<forall>i < length [?t1, ?t2]. launch (w_browser ((\<lambda>_. world0) i)) = None"
    by (simp_all add: world0_def calm_def)
  note t = queue_stream_lines [OF h, where e = env0 and d = dayjs0 and lastRun = 0
      and sd = "\<lambda>m. m" and u = "''https://example.com/company/acme''"]
  have x: "t_type ([?t1, ?t2] ! 0) = Some ''company''
      \<and> t_url ([?t1, ?t2] ! 0) = Some ''https://example.com/company/acme''
      \<and> (\<forall>p. throws (w_browser ((\<lambda>_. world0) 0)) p = None)
      \<and> (want_login env0 (t_login ([?t1, ?t2] ! 0) = Some 1)
            \<longrightarrow> login_passes env0 (w_browser ((\<lambda>_. world0) 0)))
      \<and> \<not> looksLikeCaptcha (page_url (w_browser ((\<lambda>_. world0) 0)))
            (html (w_browser ((\<lambda>_. world0) 0)))"
    by (simp add: world0_def calm_def want_login_def env0_def looksLikeCaptcha_def lower_def)
  from t x have "line_of env0 dayjs0 ((\<lambda>_. world0) 0) ([?t1, ?t2] ! 0) =
       JObj [(''ok'', JBool True), (''type'', JStr ''company''),
             (''url'', JStr ''https://example.com/company/acme''),
             (''result'', JObj [(''url'', JStr ''https://example.com/company/acme''),
                                (''scrapedAt'', JStr (stamp (w_browser ((\<lambda>_. world0) 0)))),
                                (''data'', data (w_browser ((\<lambda>_. world0) 0)))])]" by blast
  then have y: "line_of env0 dayjs0 world0 ?t1 =
       JObj [(''ok'', JBool True), (''type'', JStr ''company''),
             (''url'', JStr ''https://example.com/company/acme''),
             (''result'', JObj [(''url'', JStr ''https://example.com/company/acme''),
                                (''scrapedAt'', JStr ''2024-03-21T05:46:40.000Z''),
                                (''data'', JObj [(''name'', JStr ''Acme'')])])]"
    by (simp add: world0_def calm_def)
  have l: \<open>map (\<lambda>i. stringify (\<lambda>m. m) (line_of env0 dayjs0 ((\<lambda>_. world0) i) ([?t1, ?t2] ! i)))
             [0..<length [?t1, ?t2]] =
   [''{"ok":true,"type":"company","url":"https://example.com/company/acme","result":{"url":"https://example.com/company/acme","scrapedAt":"2024-03-21T05:46:40.000Z","data":{"name":"Acme"}}}'',
    ''{"ok":true,"type":"video","url":"https://example.com/v/1","result":{"error":"unknown_type","type":"video","url":"https://example.com/v/1"}}'']\<close>
    by (simp add: run_simps line_of_def quote_def escape_def)
  from t have a: "text_lines (body_text (\<lambda>m. m) (snd (snd (post_queue env0 dayjs0 (\<lambda>_. world0) ?bd 0)))) =
      map (\<lambda>i. stringify (\<lambda>m. m) (line_of env0 dayjs0 ((\<lambda>_. world0) i) ([?t1, ?t2] ! i)))
             [0..<length [?t1, ?t2]]" by blast
  from t have b: "fst (post_queue env0 dayjs0 (\<lambda>_. world0) ?bd 0) = End" by simp
  from a l b y show ?thesis by (simp only: simp_thms)
qed

subsection \<open>C3: the look-back filter\<close>




subsection \<open>C4: the throttle\<close>

text \<open>
  C4 as stated fails in both halves. With both bounds at 1000, two calls one
  after the other, the second arriving 5000 ms after the first recorded start:
  nothing is slept and the two recorded starts are 5000 ms apart, not 1000.
  With both bounds at 3000000000, a call arriving at the last recorded start
  asks the timer for 3000000000 ms, which the timer takes as 1 ms: the call
  records its start 1 ms after the last one.
\<close>

theorem throttle_exact_counterexample:
  "throttle_steps env1000
     [Enter 0 \<lparr>t_now = 7000, t_rnd = 0, t_late = 0\<rparr>, Leave 0,
      Enter 1 \<lparr>t_now = 12000, t_rnd = 0, t_late = 0\<rparr>, Leave 1]
     \<lparr>g_lastRun = 0, g_asleep = [], g_starts = []\<rparr>
   = \<lparr>g_lastRun = 12000, g_asleep = [], g_starts = [7000, 12000]\<rparr>
   \<and> throttle_steps (env0\<lparr>RATE_MIN_MS := Some 3000000000, RATE_MAX_MS := Some 3000000000\<rparr>)
     [Enter 0 \<lparr>t_now = 7000, t_rnd = 0, t_late = 0\<rparr>, Leave 0]
     \<lparr>g_lastRun = 7000, g_asleep = [], g_starts = [7000]\<rparr>
   = \<lparr>g_lastRun = 7001, g_asleep = [], g_starts = [7000, 7001]\<rparr>"
  by (simp add: env1000_def env0_def throttle_def timer_ms_def wait_ms_def rate_min_def rate_max_def)

text \<open>
  C4 (amended). Take a call of the throttle that overlaps no other call (none
  is asleep when it enters, and it leaves before another enters), that enters
  no earlier than the last recorded start, with bounds \<open>min \<le> max \<le> 2147483647\<close>.
  It records as the new start, after the ones recorded so far, a time at
  least the drawn wait after the last recorded start, the wait lying between
  the two bounds. With both bounds at 1000 the new start is at least 1000 ms
  after the last one, and exactly 1000 ms after it when the call entered less
  than 1000 ms after it and the timer fired on time.
\<close>

theorem throttle_spacing:
  assumes "g_asleep g = []" and "g_lastRun g \<le> t_now tk"
    and "0 \<le> t_rnd tk" and "t_rnd tk < 1"
    and "rate_min e \<le> rate_max e" and "rate_max e \<le> 2147483647"
  shows "throttle_steps e [Enter i tk, Leave i] g =
           g\<lparr>g_lastRun := throttle e tk (g_lastRun g), g_asleep := [],
             g_starts := g_starts g @ [throttle e tk (g_lastRun g)]\<rparr>
       \<and> rate_min e \<le> wait_ms e (t_rnd tk) \<and> wait_ms e (t_rnd tk) \<le> rate_max e
       \<and> g_lastRun g + wait_ms e (t_rnd tk) \<le> throttle e tk (g_lastRun g)
       \<and> (rate_min e = 1000 \<and> rate_max e = 1000 \<longrightarrow>
            g_lastRun g + 1000 \<le> throttle e tk (g_lastRun g)
          \<and> (t_now tk - g_lastRun g < 1000 \<and> t_late tk = 0 \<longrightarrow>
               throttle e tk (g_lastRun g) = g_lastRun g + 1000))"
proof -
  have s: "throttle_steps e [Enter i tk, Leave i] g =
           g\<lparr>g_lastRun := throttle e tk (g_lastRun g), g_asleep := [],
             g_starts := g_starts g @ [throttle e tk (g_lastRun g)]\<rparr>"
    using assms(1) by (rule throttle_call)
  have b: "rate_min e \<le> wait_ms e (t_rnd tk) \<and> wait_ms e (t_rnd tk) \<le> rate_max e"
    using assms(3,4,5) by (rule wait_ms_bounds)
  with assms(6) have small: "wait_ms e (t_rnd tk) \<le> 2147483647" by simp
  note ex = throttle_exact [OF assms(2) small]
  have g: "g_lastRun g + wait_ms e (t_rnd tk) \<le> throttle e tk (g_lastRun g)"
    using assms(2) small by (rule throttle_gap)
  have d: "rate_min e = 1000 \<and> rate_max e = 1000 \<longrightarrow>
            g_lastRun g + 1000 \<le> throttle e tk (g_lastRun g)
          \<and> (t_now tk - g_lastRun g < 1000 \<and> t_late tk = 0 \<longrightarrow>
               throttle e tk (g_lastRun g) = g_lastRun g + 1000)"
  proof
    assume eq: "rate_min e = 1000 \<and> rate_max e = 1000"
    with b have w: "wait_ms e (t_rnd tk) = 1000" by simp
    show "g_lastRun g + 1000 \<le> throttle e tk (g_lastRun g)
          \<and> (t_now tk - g_lastRun g < 1000 \<and> t_late tk = 0 \<longrightarrow>
               throttle e tk (g_lastRun g) = g_lastRun g + 1000)"
      using g w ex by simp
  qed
  from s b g d show ?thesis by blast
qed

theorem throttle_spacing_witness:
  "throttle_steps env1000 [Enter 1 \<lparr>t_now = 7300, t_rnd = 1 / 2, t_late = 0\<rparr>, Leave 1]
     \<lparr>g_lastRun = 7000, g_asleep = [], g_starts = [7000]\<rparr>
   = \<lparr>g_lastRun = 8000, g_asleep = [], g_starts = [7000, 8000]\<rparr>"
proof -
  let ?g = "\<lparr>g_lastRun = 7000, g_asleep = [], g_starts = [7000]\<rparr>"
  let ?tk = "\<lparr>t_now = 7300, t_rnd = 1 / 2, t_late = 0\<rparr>"
  have h: "g_asleep ?g = []" "g_lastRun ?g \<le> t_now ?tk" "0 \<le> t_rnd ?tk" "t_rnd ?tk < 1"
    "rate_min env1000 \<le> rate_max env1000" "rate_max env1000 \<le> 2147483647"
    by (simp_all add: env1000_def env0_def rate_min_def rate_max_def)
  have r: "rate_min env1000 = 1000 \<and> rate_max env1000 = 1000"
    "t_now ?tk - g_lastRun ?g < 1000 \<and> t_late ?tk = 0"
    by (simp_all add: env1000_def env0_def rate_min_def rate_max_def)
  note t = throttle_spacing [OF h, of 1]
  from t r have "throttle env1000 ?tk (g_lastRun ?g) = g_lastRun ?g + 1000" by blast
  with t show ?thesis by simp
qed

subsection \<open>C5: a missing url\<close>

text \<open>
  C5. On each of the five single-task endpoints a request whose \<^verbatim>\<open>url\<close> is
  missing or empty is answered with status 400 and \<^verbatim>\<open>{error: "Missing ?url"}\<close>
  (\<^verbatim>\<open>"Missing ?url (company page)"\<close> on \<^verbatim>\<open>/jobs_company\<close>), and the only thing
  the handler has done is wait for the throttle: no browser is created, no
  scraper entered, no login attempted.
\<close>

theorem missing_url_400:
  assumes "q_url q = None \<or> q_url q = Some []"
  shows "get_profile e w q lastRun =
           (Json 400 (JObj [(''error'', JStr ''Missing ?url'')]),
            throttle e (w_tick w) lastRun, [Throttled (throttle e (w_tick w) lastRun)])
       \<and> get_profile_posts e d w q lastRun =
           (Json 400 (JObj [(''error'', JStr ''Missing ?url'')]),
            throttle e (w_tick w) lastRun, [Throttled (throttle e (w_tick w) lastRun)])
       \<and> get_company e w q lastRun =
           (Json 400 (JObj [(''error'', JStr ''Missing ?url'')]),
            throttle e (w_tick w) lastRun, [Throttled (throttle e (w_tick w) lastRun)])
       \<and> get_company_posts e d w q lastRun =
           (Json 400 (JObj [(''error'', JStr ''Missing ?url'')]),
            throttle e (w_tick w) lastRun, [Throttled (throttle e (w_tick w) lastRun)])
       \<and> get_jobs_company e w q lastRun =
           (Json 400 (JObj [(''error'', JStr ''Missing ?url (company page)'')]),
            throttle e (w_tick w) lastRun, [Throttled (throttle e (w_tick w) lastRun)])"
proof -
  from assms have u: "\<not> truthy (q_url q)" by auto
  show ?thesis
    using u
    by (simp add: get_profile_def get_profile_posts_def get_company_def get_company_posts_def
        get_jobs_company_def Let_def error_body_def obj_def)
qed

theorem missing_url_400_witness:
  "get_profile env0 world0 \<lparr>q_url = Some [], q_login = Some ''1'', q_days = None\<rparr> 0 =
     (Json 400 (JObj [(''error'', JStr ''Missing ?url'')]), 1711000000000, [Throttled 1711000000000])
   \<and> get_jobs_company env0 world0 \<lparr>q_url = Some [], q_login = Some ''1'', q_days = None\<rparr> 0 =
     (Json 400 (JObj [(''error'', JStr ''Missing ?url (company page)'')]), 1711000000000,
      [Throttled 1711000000000])"
  using missing_url_400 [of "\<lparr>q_url = Some [], q_login = Some ''1'', q_days = None\<rparr>" env0 world0 0]
  by (simp add: throttle_def timer_ms_def wait_ms_def rate_min_def rate_max_def env0_def world0_def)

subsection \<open>C6: a scraper that throws\<close>

text \<open>
  C6. When the scraper called for a task throws \<open>ex\<close> (the browser having
  launched), a single-task endpoint answers with status 500 and
  \<^verbatim>\<open>{error: String(ex)}\<close>; in the queue the turn of the loop ends normally, its
  envelope is \<^verbatim>\<open>{ok: false, type, url, error: String(ex)}\<close> (written as a line
  when streaming), and the loop goes on with the remaining tasks.
\<close>

theorem collaborator_failure_contained:
  assumes "launch (w_browser w) = None"
  shows "(truthy (q_url q) \<and>
            scrapeProfile e (w_browser w) (q_url q) (want_login e (q_login q = Some ''1'')) = (Inl ex, t)
          \<longrightarrow> fst (get_profile e w q lastRun) = Json 500 (JObj [(''error'', JStr (String_of ex))]))
       \<and> (truthy (q_url q) \<and>
            scrapeProfilePosts e d (w_browser w) (q_url q) (case q_days q of None \<Rightarrow> Num 30 | Some n \<Rightarrow> n)
              (want_login e (q_login q = Some ''1'')) = (Inl ex, t)
          \<longrightarrow> fst (get_profile_posts e d w q lastRun) = Json 500 (JObj [(''error'', JStr (String_of ex))]))
       \<and> (truthy (q_url q) \<and>
            scrapeCompany e (w_browser w) (q_url q) (want_login e (q_login q = Some ''1'')) = (Inl ex, t)
          \<longrightarrow> fst (get_company e w q lastRun) = Json 500 (JObj [(''error'', JStr (String_of ex))]))
       \<and> (truthy (q_url q) \<and>
            scrapeCompanyPosts e d (w_browser w) (q_url q) (case q_days q of None \<Rightarrow> Num 30 | Some n \<Rightarrow> n)
              (want_login e (q_login q = Some ''1'')) = (Inl ex, t)
          \<longrightarrow> fst (get_company_posts e d w q lastRun) = Json 500 (JObj [(''error'', JStr (String_of ex))]))
       \<and> (truthy (q_url q) \<and>
            scrapeCompanyJobs e (w_browser w) (q_url q) (want_login e (q_login q = Some ''1'')) = (Inl ex, t)
          \<longrightarrow> fst (get_jobs_company e w q lastRun) = Json 500 (JObj [(''error'', JStr (String_of ex))]))
       \<and> (dispatch e d (w_browser w) tsk (want_login e (t_login tsk = Some 1)) = (Inl ex, t)
          \<longrightarrow> queue_task e d w stream tsk lastRun =
                (Inr (), throttle e (w_tick w) lastRun,
                 Throttled (throttle e (w_tick w) lastRun) # CreateBrowser # t
                   @ (if stream
                      then [Write (obj [(''ok'', Some (JBool False)),
                                        (''type'', map_option JStr (t_type tsk)),
                                        (''url'', map_option JStr (t_url tsk)),
                                        (''error'', Some (JStr (String_of ex)))])]
                      else [])
                   @ [CloseBrowser])
              \<and> (ws i = w \<longrightarrow>
                   queue_loop e d ws stream i (Some tsk # rest) lastRun =
                     (case queue_loop e d ws stream (Suc i) rest (throttle e (w_tick w) lastRun) of
                        (r, lastRun', tr) \<Rightarrow>
                          (r, lastRun',
                           (Throttled (throttle e (w_tick w) lastRun) # CreateBrowser # t
                             @ (if stream then [Write (envelope tsk (Inl ex))] else [])
                             @ [CloseBrowser]) @ tr))))"
proof -
  have p1: "truthy (q_url q) \<and>
            scrapeProfile e (w_browser w) (q_url q) (want_login e (q_login q = Some ''1'')) = (Inl ex, t)
          \<longrightarrow> fst (get_profile e w q lastRun) = Json 500 (JObj [(''error'', JStr (String_of ex))])"
    using assms by (simp add: get_profile_def Let_def serve_throw)
  have p2: "truthy (q_url q) \<and>
            scrapeProfilePosts e d (w_browser w) (q_url q) (case q_days q of None \<Rightarrow> Num 30 | Some n \<Rightarrow> n)
              (want_login e (q_login q = Some ''1'')) = (Inl ex, t)
          \<longrightarrow> fst (get_profile_posts e d w q lastRun) = Json 500 (JObj [(''error'', JStr (String_of ex))])"
    using assms by (simp add: get_profile_posts_def Let_def serve_throw)
  have p3: "truthy (q_url q) \<and>
            scrapeCompany e (w_browser w) (q_url q) (want_login e (q_login q = Some ''1'')) = (Inl ex, t)
          \<longrightarrow> fst (get_company e w q lastRun) = Json 500 (JObj [(''error'', JStr (String_of ex))])"
    using assms by (simp add: get_company_def Let_def serve_throw)
  have p4: "truthy (q_url q) \<and>
            scrapeCompanyPosts e d (w_browser w) (q_url q) (case q_days q of None \<Rightarrow> Num 30 | Some n \<Rightarrow> n)
              (want_login e (q_login q = Some ''1'')) = (Inl ex, t)
          \<longrightarrow> fst (get_company_posts e d w q lastRun) = Json 500 (JObj [(''error'', JStr (String_of ex))])"
    using assms by (simp add: get_company_posts_def Let_def serve_throw)
  have p5: "truthy (q_url q) \<and>
            scrapeCompanyJobs e (w_browser w) (q_url q) (want_login e (q_login q = Some ''1'')) = (Inl ex, t)
          \<longrightarrow> fst (get_jobs_company e w q lastRun) = Json 500 (JObj [(''error'', JStr (String_of ex))])"
    using assms by (simp add: get_jobs_company_def Let_def serve_throw)
  have p6: "dispatch e d (w_browser w) tsk (want_login e (t_login tsk = Some 1)) = (Inl ex, t)
          \<longrightarrow> queue_task e d w stream tsk lastRun =
                (Inr (), throttle e (w_tick w) lastRun,
                 Throttled (throttle e (w_tick w) lastRun) # CreateBrowser # t
                   @ (if stream
                      then [Write (obj [(''ok'', Some (JBool False)),
                                        (''type'', map_option JStr (t_type tsk)),
                                        (''url'', map_option JStr (t_url tsk)),
                                        (''error'', Some (JStr (String_of ex)))])]
                      else [])
                   @ [CloseBrowser])
              \<and> (ws i = w \<longrightarrow>
                   queue_loop e d ws stream i (Some tsk # rest) lastRun =
                     (case queue_loop e d ws stream (Suc i) rest (throttle e (w_tick w) lastRun) of
                        (r, lastRun', tr) \<Rightarrow>
                          (r, lastRun',
                           (Throttled (throttle e (w_tick w) lastRun) # CreateBrowser # t
                             @ (if stream then [Write (envelope tsk (Inl ex))] else [])
                             @ [CloseBrowser]) @ tr)))"
    using assms by (auto simp: queue_task_caught envelope_def queue_turn_def)
  from p1 p2 p3 p4 p5 p6 show ?thesis by blast
qed

theorem collaborator_failure_contained_witness:
  "fst (get_profile env0 (world_with stalled)
         \<lparr>q_url = Some ''https://example.com/in/x'', q_login = None, q_days = None\<rparr> 0)
     = Json 500 (JObj [(''error'', JStr ''TimeoutError: Navigation timeout of 60000 ms exceeded'')])
   \<and> queue_task env0 dayjs0 (world_with stalled) True
         \<lparr>t_type = Some ''profile'', t_url = Some ''https://example.com/in/x'', t_days = None,
          t_login = None\<rparr> 0
     = (Inr (), 1711000000000,
        [Throttled 1711000000000, CreateBrowser,
         Call ScrapeProfile (Some ''https://example.com/in/x'') None False,
         PageOp NewPage, PageOp (Goto (Some ''https://example.com/in/x'')),
         Write (JObj [(''ok'', JBool False), (''type'', JStr ''profile''),
                      (''url'', JStr ''https://example.com/in/x''),
                      (''error'', JStr ''TimeoutError: Navigation timeout of 60000 ms exceeded'')]),
         CloseBrowser])"
proof -
  let ?q = "\<lparr>q_url = Some ''https://example.com/in/x'', q_login = None, q_days = None\<rparr>"
  let ?tsk = "\<lparr>t_type = Some ''profile'', t_url = Some ''https://example.com/in/x'',
                t_days = None, t_login = None\<rparr>"
  let ?ex = "JsError ''TimeoutError'' ''Navigation timeout of 60000 ms exceeded''"
  let ?t = "[Call ScrapeProfile (Some ''https://example.com/in/x'') None False,
             PageOp NewPage, PageOp (Goto (Some ''https://example.com/in/x''))]"
  have l: "launch (w_browser (world_with stalled)) = None"
    by (simp add: world_with_def stalled_def calm_def)
  have u: "truthy (q_url ?q)" by simp
  have s: "scrapeProfile env0 (w_browser (world_with stalled)) (q_url ?q)
             (want_login env0 (q_login ?q = Some ''1'')) = (Inl ?ex, ?t)"
    by (simp add: run_simps page_simps)
  have dsp: "dispatch env0 dayjs0 (w_browser (world_with stalled)) ?tsk
             (want_login env0 (t_login ?tsk = Some 1)) = (Inl ?ex, ?t)"
    by (simp add: run_simps page_simps)
  have th: "throttle env0 (w_tick (world_with stalled)) 0 = 1711000000000"
    by (simp add: run_simps)
  note c = collaborator_failure_contained [OF l, where e = env0 and d = dayjs0 and q = ?q
      and tsk = ?tsk and ex = ?ex and t = ?t and stream = True and lastRun = 0]
  from c u s have a: "fst (get_profile env0 (world_with stalled) ?q 0) =
      Json 500 (JObj [(''error'', JStr (String_of ?ex))])" by blast
  from c dsp have b: "queue_task env0 dayjs0 (world_with stalled) True ?tsk 0 =
      (Inr (), throttle env0 (w_tick (world_with stalled)) 0,
       Throttled (throttle env0 (w_tick (world_with stalled)) 0) # CreateBrowser # ?t
         @ (if True
            then [Write (obj [(''ok'', Some (JBool False)),
                              (''type'', map_option JStr (t_type ?tsk)),
                              (''url'', map_option JStr (t_url ?tsk)),
                              (''error'', Some (JStr (String_of ?ex)))])]
            else [])
         @ [CloseBrowser])" by blast
  from a b th show ?thesis by (simp add: obj_def)
qed

subsection \<open>C7: the challenge page\<close>

text \<open>
  C7. On a page that looks like a challenge, where no page operation up to
  the reading of the content throws and the login flow (if asked for) passes,
  \<^verbatim>\<open>scrapeProfile\<close> and \<^verbatim>\<open>scrapeCompany\<close> return
  \<^verbatim>\<open>{error: "captcha_or_challenge", url: page.url()}\<close> and do not throw; the
  endpoints \<^verbatim>\<open>/profile\<close> and \<^verbatim>\<open>/company\<close> answer a request that has a url with
  that value and status 200; and the turn of the queue for a task of type
  \<^verbatim>\<open>profile\<close> or \<^verbatim>\<open>company\<close> ends normally with the envelope
  \<^verbatim>\<open>{ok: true, type, url, result: {error: "captcha_or_challenge", url}}\<close>,
  written as a line when streaming.
\<close>

theorem captcha_is_payload:
  assumes "looksLikeCaptcha (page_url b) (html b)"
    and "\<forall>p. p \<notin> {AutoScroll, Evaluate, ClosePage} \<longrightarrow> throws b p = None"
  shows "((login \<longrightarrow> login_passes e b) \<longrightarrow>
            fst (scrapeProfile e b url login) =
              Inr (JObj [(''error'', JStr ''captcha_or_challenge''), (''url'', JStr (page_url b))])
          \<and> fst (scrapeCompany e b url login) =
              Inr (JObj [(''error'', JStr ''captcha_or_challenge''), (''url'', JStr (page_url b))]))
       \<and> (w_browser w = b \<and> launch b = None \<and> truthy (q_url q)
            \<and> (want_login e (q_login q = Some ''1'') \<longrightarrow> login_passes e b) \<longrightarrow>
            fst (get_profile e w q lastRun) =
              Json 200 (JObj [(''error'', JStr ''captcha_or_challenge''), (''url'', JStr (page_url b))])
          \<and> fst (get_company e w q lastRun) =
              Json 200 (JObj [(''error'', JStr ''captcha_or_challenge''), (''url'', JStr (page_url b))]))
       \<and> (w_browser w = b \<and> launch b = None \<and> t_type tsk \<in> {Some ''profile'', Some ''company''}
            \<and> (want_login e (t_login tsk = Some 1) \<longrightarrow> login_passes e b) \<longrightarrow>
            queue_task e d w stream tsk lastRun =
              (Inr (), throttle e (w_tick w) lastRun,
               Throttled (throttle e (w_tick w) lastRun) # CreateBrowser
                 # snd (dispatch e d b tsk (want_login e (t_login tsk = Some 1)))
                 @ (if stream
                    then [Write (obj [(''ok'', Some (JBool True)),
                                      (''type'', map_option JStr (t_type tsk)),
                                      (''url'', map_option JStr (t_url tsk)),
                                      (''result'', Some (JObj [(''error'', JStr ''captcha_or_challenge''),
                                                               (''url'', JStr (page_url b))]))])]
                    else [])
                 @ [CloseBrowser]))"
proof -
  let ?s = "JObj [(''error'', JStr ''captcha_or_challenge''), (''url'', JStr (page_url b))]"
  have s: "captcha_sentinel b = ?s" by (simp add: captcha_sentinel_def obj_def)
  have p: "fst (scrapeProfile e b url login) = Inr ?s" if "login \<longrightarrow> login_passes e b" for url login
    using scrapeProfile_challenge [OF assms that] s by simp
  have c: "fst (scrapeCompany e b url login) = Inr ?s" if "login \<longrightarrow> login_passes e b" for url login
    using scrapeCompany_challenge [OF assms that] s by simp
  have h: "w_browser w = b \<and> launch b = None \<and> truthy (q_url q)
            \<and> (want_login e (q_login q = Some ''1'') \<longrightarrow> login_passes e b) \<longrightarrow>
            fst (get_profile e w q lastRun) = Json 200 ?s
          \<and> fst (get_company e w q lastRun) = Json 200 ?s"
    by (auto simp: handler_fst p c)
  have q: "w_browser w = b \<and> launch b = None \<and> t_type tsk \<in> {Some ''profile'', Some ''company''}
            \<and> (want_login e (t_login tsk = Some 1) \<longrightarrow> login_passes e b) \<longrightarrow>
            queue_task e d w stream tsk lastRun =
              (Inr (), throttle e (w_tick w) lastRun,
               Throttled (throttle e (w_tick w) lastRun) # CreateBrowser
                 # snd (dispatch e d b tsk (want_login e (t_login tsk = Some 1)))
                 @ (if stream
                    then [Write (obj [(''ok'', Some (JBool True)),
                                      (''type'', map_option JStr (t_type tsk)),
                                      (''url'', map_option JStr (t_url tsk)),
                                      (''result'', Some ?s)])]
                    else [])
                 @ [CloseBrowser])"
  proof (intro impI, elim conjE)
    assume wb: "w_browser w = b" and la: "launch b = None"
      and ty: "t_type tsk \<in> {Some ''profile'', Some ''company''}"
      and lg: "want_login e (t_login tsk = Some 1) \<longrightarrow> login_passes e b"
    have "fst (dispatch e d b tsk (want_login e (t_login tsk = Some 1))) = Inr ?s"
      using ty p [OF lg] c [OF lg] by (auto simp: dispatch_def Let_def)
    then have "line_of e d w tsk =
        obj [(''ok'', Some (JBool True)), (''type'', map_option JStr (t_type tsk)),
             (''url'', map_option JStr (t_url tsk)), (''result'', Some ?s)]"
      using wb by (simp add: line_of_def envelope_def)
    then show "queue_task e d w stream tsk lastRun =
              (Inr (), throttle e (w_tick w) lastRun,
               Throttled (throttle e (w_tick w) lastRun) # CreateBrowser
                 # snd (dispatch e d b tsk (want_login e (t_login tsk = Some 1)))
                 @ (if stream
                    then [Write (obj [(''ok'', Some (JBool True)),
                                      (''type'', map_option JStr (t_type tsk)),
                                      (''url'', map_option JStr (t_url tsk)),
                                      (''result'', Some ?s)])]
                    else [])
                 @ [CloseBrowser])"
      using queue_task_events [of w e d stream tsk lastRun] wb la
      by (simp add: turn_events_def)
  qed
  from p c h q show ?thesis by blast
qed

theorem captcha_is_payload_witness:
  "fst (scrapeProfile env0 blocked (Some ''https://example.com/in/x'') False) =
     Inr (JObj [(''error'', JStr ''captcha_or_challenge''),
                (''url'', JStr ''https://www.linkedin.com/checkpoint/challenge/1'')])
   \<and> fst (scrapeCompany env0 blocked (Some ''https://example.com/in/x'') False) =
     Inr (JObj [(''error'', JStr ''captcha_or_challenge''),
                (''url'', JStr ''https://www.linkedin.com/checkpoint/challenge/1'')])
   \<and> fst (get_profile env0 (world_with blocked)
            \<lparr>q_url = Some ''https://example.com/in/x'', q_login = None, q_days = None\<rparr> 0) =
     Json 200 (JObj [(''error'', JStr ''captcha_or_challenge''),
                     (''url'', JStr ''https://www.linkedin.com/checkpoint/challenge/1'')])
   \<and> fst (get_company env0 (world_with blocked)
            \<lparr>q_url = Some ''https://example.com/in/x'', q_login = None, q_days = None\<rparr> 0) =
     Json 200 (JObj [(''error'', JStr ''captcha_or_challenge''),
                     (''url'', JStr ''https://www.linkedin.com/checkpoint/challenge/1'')])
   \<and> queue_task env0 dayjs0 (world_with blocked) True
        \<lparr>t_type = Some ''company'', t_url = Some ''https://example.com/company/acme'',
         t_days = None, t_login = None\<rparr> 0 =
     (Inr (), 1711000000000,
      [Throttled 1711000000000, CreateBrowser,
       Call ScrapeCompany (Some ''https://example.com/company/acme'') None False,
       PageOp NewPage, PageOp (Goto (Some ''https://example.com/company/acme'')),
       PageOp (WaitForTimeout 1000), PageOp Content,
       Write (JObj [(''ok'', JBool True), (''type'', JStr ''company''),
                    (''url'', JStr ''https://example.com/company/acme''),
                    (''result'', JObj [(''error'', JStr ''captcha_or_challenge''),
                       (''url'', JStr ''https://www.linkedin.com/checkpoint/challenge/1'')])]),
       CloseBrowser])
   \<and> fst (scrapeCompany env_email (signed_out blocked) (Some ''https://example.com/company/acme'') True) =
     Inr (JObj [(''error'', JStr ''captcha_or_challenge''),
                (''url'', JStr ''https://www.linkedin.com/checkpoint/challenge/1'')])"
proof -
  let ?q = "\<lparr>q_url = Some ''https://example.com/in/x'', q_login = None, q_days = None\<rparr>"
  let ?tsk = "\<lparr>t_type = Some ''company'', t_url = Some ''https://example.com/company/acme'',
                t_days = None, t_login = None\<rparr>"
  have c': "looksLikeCaptcha (page_url (signed_out blocked)) (html (signed_out blocked))"
    by (simp add: signed_out_def blocked_def calm_def looksLikeCaptcha_def)
  have q': "\<forall>p. p \<notin> {AutoScroll, Evaluate, ClosePage} \<longrightarrow> throws (signed_out blocked) p = None"
    by (simp add: signed_out_def blocked_def calm_def)
  have l': "True \<longrightarrow> login_passes env_email (signed_out blocked)"
    by (simp add: login_passes_def env_email_def env0_def)
  have u': "page_url (signed_out blocked) = ''https://www.linkedin.com/checkpoint/challenge/1''"
    by (simp add: signed_out_def blocked_def calm_def)
  note t' = captcha_is_payload [OF c' q', where e = env_email and login = True
      and url = "Some ''https://example.com/company/acme''", unfolded u']
  from t' l' have signed: "fst (scrapeCompany env_email (signed_out blocked)
        (Some ''https://example.com/company/acme'') True) =
     Inr (JObj [(''error'', JStr ''captcha_or_challenge''),
                (''url'', JStr ''https://www.linkedin.com/checkpoint/challenge/1'')])" by blast
  have c: "looksLikeCaptcha (page_url blocked) (html blocked)"
    by (simp add: blocked_def calm_def looksLikeCaptcha_def)
  have q: "\<forall>p. p \<notin> {AutoScroll, Evaluate, ClosePage} \<longrightarrow> throws blocked p = None"
    by (simp add: blocked_def calm_def)
  have u: "page_url blocked = ''https://www.linkedin.com/checkpoint/challenge/1''"
    by (simp add: blocked_def calm_def)
  have w: "w_browser (world_with blocked) = blocked \<and> launch blocked = None \<and> truthy (q_url ?q)
      \<and> t_type ?tsk \<in> {Some ''profile'', Some ''company''}
      \<and> (False \<longrightarrow> login_passes env0 blocked)
      \<and> (want_login env0 (q_login ?q = Some ''1'') \<longrightarrow> login_passes env0 blocked)
      \<and> (want_login env0 (t_login ?tsk = Some 1) \<longrightarrow> login_passes env0 blocked)"
    by (simp add: world_with_def blocked_def calm_def want_login_def env0_def)
  have th: "throttle env0 (w_tick (world_with blocked)) 0 = 1711000000000"
    by (simp add: run_simps)
  have tr: "snd (dispatch env0 dayjs0 blocked ?tsk (want_login env0 (t_login ?tsk = Some 1))) =
      [Call ScrapeCompany (Some ''https://example.com/company/acme'') None False,
       PageOp NewPage, PageOp (Goto (Some ''https://example.com/company/acme'')),
       PageOp (WaitForTimeout 1000), PageOp Content]"
    by (simp add: run_simps page_simps)
  note t = captcha_is_payload [OF c q, where e = env0 and login = False
      and url = "Some ''https://example.com/in/x''"
      and w = "world_with blocked" and q = ?q and tsk = ?tsk
      and d = dayjs0 and stream = True and lastRun = 0, unfolded u th tr]
  from t w signed show ?thesis by (simp add: obj_def)
qed

subsection \<open>C8: the queue without streaming\<close>

text \<open>
  C8 as stated fails for the request whose task list is empty: with
  \<^verbatim>\<open>stream: false\<close> and \<^verbatim>\<open>tasks: []\<close> there is no task left to complete, and the
  response is status 400 with an error body, not \<^verbatim>\<open>{ok: true}\<close>.
\<close>

theorem queue_without_stream_counterexample:
  "post_queue env0 dayjs0 (\<lambda>_. world0) \<lparr>b_stream = Some (JBool False), b_tasks = Some []\<rparr> 0
   = (Json 400 (JObj [(''error'', JStr ''Provide tasks: [{type,url,days?,login?}, ...]'')]), 0, [])"
  by (simp add: post_queue_def error_body_def obj_def)

text \<open>
  C8 (amended). For every request posted with \<^verbatim>\<open>stream: false\<close> and a
  non-empty list of task objects, if the browser launches for every task then
  every task has its whole turn, in the order of the list (the throttle, the
  browser, the dispatch, the closing of the browser), and after the last turn
  the response is status 200 with exactly the body \<^verbatim>\<open>{ok: true}\<close>. Whatever
  the request posted with \<^verbatim>\<open>stream: false\<close>, nothing is written while the tasks
  run, and a response with status 200 has exactly the body \<^verbatim>\<open>{ok: true}\<close>: the
  results of the tasks are not in it.
\<close>

theorem queue_without_stream:
  assumes "b_stream bd = Some (JBool False)" and "b_tasks bd = Some (map Some ts)" and "ts \<noteq> []"
    and "\<forall>i < length ts. launch (w_browser (ws i)) = None"
  shows "post_queue e d ws bd lastRun =
           (Json 200 (JObj [(''ok'', JBool True)]), lastRun_after e ws lastRun (length ts),
            concat (map (\<lambda>i. turn_events e d (ws i) False (ts ! i)
                                (lastRun_after e ws lastRun (Suc i))) [0..<length ts]))
       \<and> (\<forall>i < length ts.
            turn_events e d (ws i) False (ts ! i) (lastRun_after e ws lastRun (Suc i)) =
              Throttled (lastRun_after e ws lastRun (Suc i)) # CreateBrowser
                # snd (dispatch e d (w_browser (ws i)) (ts ! i)
                         (want_login e (t_login (ts ! i) = Some 1)))
                @ [CloseBrowser])
       \<and> (\<forall>bd'. b_stream bd' = Some (JBool False) \<longrightarrow>
            written (snd (snd (post_queue e d ws bd' lastRun))) = []
          \<and> (\<forall>body. fst (post_queue e d ws bd' lastRun) = Json 200 body \<longrightarrow>
                body = JObj [(''ok'', JBool True)]))"
proof -
  have run: "post_queue e d ws bd lastRun =
           (Json 200 (JObj [(''ok'', JBool True)]), lastRun_after e ws lastRun (length ts),
            concat (map (\<lambda>i. turn_events e d (ws i) False (ts ! i)
                                (lastRun_after e ws lastRun (Suc i))) [0..<length ts]))"
    using post_queue_events [OF assms(2,3,4), of e d lastRun] assms(1)
    by (simp del: lastRun_after.simps)
  have turn: "\<forall>i < length ts.
            turn_events e d (ws i) False (ts ! i) (lastRun_after e ws lastRun (Suc i)) =
              Throttled (lastRun_after e ws lastRun (Suc i)) # CreateBrowser
                # snd (dispatch e d (w_browser (ws i)) (ts ! i)
                         (want_login e (t_login (ts ! i) = Some 1)))
                @ [CloseBrowser]"
    by (simp add: turn_events_def del: lastRun_after.simps)
  have bare: "written (snd (snd (post_queue e d ws bd' lastRun))) = []
          \<and> (\<forall>body. fst (post_queue e d ws bd' lastRun) = Json 200 body \<longrightarrow>
                body = JObj [(''ok'', JBool True)])"
    if s: "b_stream bd' = Some (JBool False)" for bd'
  proof -
    let ?ts = "case b_tasks bd' of None \<Rightarrow> [] | Some ts \<Rightarrow> ts"
    obtain r lr tr where ql: "queue_loop e d ws False 0 ?ts lastRun = (r, lr, tr)"
      by (cases "queue_loop e d ws False 0 ?ts lastRun")
    have tr: "written tr = []"
      using queue_loop_silent [of e d ws 0 ?ts lastRun] ql by simp
    have silent: "written (snd (snd (post_queue e d ws bd' lastRun))) = []"
      using s ql tr by (cases r) (simp_all add: post_queue_def Let_def)
    have ok: "\<forall>body. fst (post_queue e d ws bd' lastRun) = Json 200 body \<longrightarrow>
                body = JObj [(''ok'', JBool True)]"
      using s ql by (cases r) (auto simp: post_queue_def Let_def obj_def error_body_def)
    from silent ok show ?thesis by blast
  qed
  from run turn bare show ?thesis by blast
qed

theorem queue_without_stream_witness:
  "post_queue env0 dayjs0 (\<lambda>_. world0)
     \<lparr>b_stream = Some (JBool False),
      b_tasks = Some [Some \<lparr>t_type = Some ''company'', t_url = Some ''https://example.com/company/acme'',
                             t_days = None, t_login = None\<rparr>,
                      Some \<lparr>t_type = Some ''video'', t_url = Some ''https://example.com/v/1'',
                             t_days = None, t_login = None\<rparr>]\<rparr> 0
   = (Json 200 (JObj [(''ok'', JBool True)]), 1711000001200,
      [Throttled 1711000000000, CreateBrowser,
       Call ScrapeCompany (Some ''https://example.com/company/acme'') None False,
       PageOp NewPage, PageOp (Goto (Some ''https://example.com/company/acme'')),
       PageOp (WaitForTimeout 1000), PageOp Content, PageOp AutoScroll, PageOp Evaluate,
       PageOp ClosePage, CloseBrowser,
       Throttled 1711000001200, CreateBrowser, CloseBrowser])"
proof -
  let ?t1 = "\<lparr>t_type = Some ''company'', t_url = Some ''https://example.com/company/acme'',
               t_days = None, t_login = None\<rparr>"
  let ?t2 = "\<lparr>t_type = Some ''video'', t_url = Some ''https://example.com/v/1'',
               t_days = None, t_login = None\<rparr>"
  let ?bd = "\<lparr>b_stream = Some (JBool False), b_tasks = Some [Some ?t1, Some ?t2]\<rparr>"
  have h: "b_stream ?bd = Some (JBool False)" "b_tasks ?bd = Some (map Some [?t1, ?t2])"
    "[?t1, ?t2] \<noteq> []" "\<forall>i < length [?t1, ?t2]. launch (w_browser ((\<lambda>_. world0) i)) = None"
    by (simp_all add: world0_def calm_def)
  note t = queue_without_stream [OF h, where e = env0 and d = dayjs0 and lastRun = 0]
  have v: "(Json 200 (JObj [(''ok'', JBool True)]),
            lastRun_after env0 (\<lambda>_. world0) 0 (length [?t1, ?t2]),
            concat (map (\<lambda>i. turn_events env0 dayjs0 ((\<lambda>_. world0) i) False ([?t1, ?t2] ! i)
                                (lastRun_after env0 (\<lambda>_. world0) 0 (Suc i))) [0..<length [?t1, ?t2]]))
     = (Json 200 (JObj [(''ok'', JBool True)]), 1711000001200,
      [Throttled 1711000000000, CreateBrowser,
       Call ScrapeCompany (Some ''https://example.com/company/acme'') None False,
       PageOp NewPage, PageOp (Goto (Some ''https://example.com/company/acme'')),
       PageOp (WaitForTimeout 1000), PageOp Content, PageOp AutoScroll, PageOp Evaluate,
       PageOp ClosePage, CloseBrowser,
       Throttled 1711000001200, CreateBrowser, CloseBrowser])"
    by (simp add: run_simps turn_events_def)
  from t have "post_queue env0 dayjs0 (\<lambda>_. world0) ?bd 0 =
     (Json 200 (JObj [(''ok'', JBool True)]),
            lastRun_after env0 (\<lambda>_. world0) 0 (length [?t1, ?t2]),
            concat (map (\<lambda>i. turn_events env0 dayjs0 ((\<lambda>_. world0) i) False ([?t1, ?t2] ! i)
                                (lastRun_after env0 (\<lambda>_. world0) 0 (Suc i))) [0..<length [?t1, ?t2]]))"
    by (rule conjunct1)
  from this v show ?thesis by (rule trans)
qed

subsection \<open>C9: at most fifty jobs\<close>

text \<open>
  C9. Whatever the page holds, the \<^verbatim>\<open>jobs\<close> of a result of
  \<^verbatim>\<open>scrapeCompanyJobs\<close>, and of a response of \<^verbatim>\<open>/jobs_company\<close> with status
  200, are the first fifty matching cards, one entry each, so at most fifty
  entries. Such a result is what the scraper returns, and what the endpoint
  answers with status 200 to a request that has a url once the browser has
  launched, when no page operation throws and the login flow (if asked for)
  passes.
\<close>

theorem jobs_capped:
  "length (map job_json (take 50 (cards b))) \<le> 50
   \<and> (\<forall>url login out. fst (scrapeCompanyJobs e b url login) = Inr out \<longrightarrow>
        field out ''jobs'' = Some (JArr (map job_json (take 50 (cards b)))))
   \<and> (\<forall>body. w_browser w = b \<and> fst (get_jobs_company e w q lastRun) = Json 200 body \<longrightarrow>
        field body ''jobs'' = Some (JArr (map job_json (take 50 (cards b)))))
   \<and> ((\<forall>p. throws b p = None) \<and> (login \<longrightarrow> login_passes e b) \<longrightarrow>
        fst (scrapeCompanyJobs e b (Some u) login) =
          Inr (JObj [(''url'', JStr (with_slash u @ ''jobs/'')),
                     (''scrapedAt'', JStr (stamp b)),
                     (''jobs'', JArr (map job_json (take 50 (cards b))))]))
   \<and> ((\<forall>p. throws b p = None) \<and> (want_login e (q_login q = Some ''1'') \<longrightarrow> login_passes e b)
        \<and> w_browser w = b \<and> launch b = None \<and> q_url q = Some u \<and> u \<noteq> [] \<longrightarrow>
        get_jobs_company e w q lastRun =
          (Json 200 (JObj [(''url'', JStr (with_slash u @ ''jobs/'')),
                           (''scrapedAt'', JStr (stamp b)),
                           (''jobs'', JArr (map job_json (take 50 (cards b))))]),
           throttle e (w_tick w) lastRun,
           Throttled (throttle e (w_tick w) lastRun) # CreateBrowser
             # snd (scrapeCompanyJobs e b (Some u) (want_login e (q_login q = Some ''1'')))
             @ [CloseBrowser]))"
proof -
  have n: "length (map job_json (take 50 (cards b))) \<le> 50" by simp
  have s: "field out ''jobs'' = Some (JArr (map job_json (take 50 (cards b))))"
    if "fst (scrapeCompanyJobs e b url login) = Inr out" for url login out
    using scrapeCompanyJobs_returns [OF that] by (auto simp: obj_def)
  have h: "field body ''jobs'' = Some (JArr (map job_json (take 50 (cards b))))"
    if "w_browser w = b" "fst (get_jobs_company e w q lastRun) = Json 200 body" for body
  proof -
    from that(2) have "fst (scrapeCompanyJobs e (w_browser w) (q_url q)
        (want_login e (q_login q = Some ''1''))) = Inr body"
      by (auto simp: get_jobs_company_def Let_def serve_def createBrowser_def error_body_def
          split: if_splits option.splits prod.splits sum.splits)
    with that(1) show ?thesis using s by simp
  qed
  have r: "fst (scrapeCompanyJobs e b (Some u) login) =
          Inr (JObj [(''url'', JStr (with_slash u @ ''jobs/'')),
                     (''scrapedAt'', JStr (stamp b)),
                     (''jobs'', JArr (map job_json (take 50 (cards b))))])"
    if "\<forall>p. throws b p = None" "login \<longrightarrow> login_passes e b" for login
    using scrapeCompanyJobs_smooth [OF that] by (simp add: obj_def)
  have g: "(\<forall>p. throws b p = None) \<and> (want_login e (q_login q = Some ''1'') \<longrightarrow> login_passes e b)
        \<and> w_browser w = b \<and> launch b = None \<and> q_url q = Some u \<and> u \<noteq> [] \<longrightarrow>
        get_jobs_company e w q lastRun =
          (Json 200 (JObj [(''url'', JStr (with_slash u @ ''jobs/'')),
                           (''scrapedAt'', JStr (stamp b)),
                           (''jobs'', JArr (map job_json (take 50 (cards b))))]),
           throttle e (w_tick w) lastRun,
           Throttled (throttle e (w_tick w) lastRun) # CreateBrowser
             # snd (scrapeCompanyJobs e b (Some u) (want_login e (q_login q = Some ''1'')))
             @ [CloseBrowser])"
  proof (intro impI, elim conjE)
    assume a: "\<forall>p. throws b p = None" "want_login e (q_login q = Some ''1'') \<longrightarrow> login_passes e b"
      "w_browser w = b" "launch b = None" "q_url q = Some u" "u \<noteq> []"
    obtain x t where m: "scrapeCompanyJobs e b (Some u) (want_login e (q_login q = Some ''1'')) = (x, t)"
      by (cases "scrapeCompanyJobs e b (Some u) (want_login e (q_login q = Some ''1''))")
    with r [OF a(1,2)] have x: "x = Inr (JObj [(''url'', JStr (with_slash u @ ''jobs/'')),
                     (''scrapedAt'', JStr (stamp b)),
                     (''jobs'', JArr (map job_json (take 50 (cards b))))])" by simp
    show "get_jobs_company e w q lastRun =
          (Json 200 (JObj [(''url'', JStr (with_slash u @ ''jobs/'')),
                           (''scrapedAt'', JStr (stamp b)),
                           (''jobs'', JArr (map job_json (take 50 (cards b))))]),
           throttle e (w_tick w) lastRun,
           Throttled (throttle e (w_tick w) lastRun) # CreateBrowser
             # snd (scrapeCompanyJobs e b (Some u) (want_login e (q_login q = Some ''1'')))
             @ [CloseBrowser])"
      using a(3,4,5,6) m x by (simp add: get_jobs_company_def Let_def serve_def createBrowser_def)
  qed
  from n s h r g show ?thesis by blast
qed

theorem jobs_capped_witness:
  "length (cards hiring) = 60
   \<and> fst (scrapeCompanyJobs env0 hiring (Some ''https://example.com/company/acme'') False) =
       Inr (JObj [(''url'', JStr ''https://example.com/company/acme/jobs/''),
                  (''scrapedAt'', JStr ''2024-03-21T05:46:40.000Z''),
                  (''jobs'', JArr (replicate 50
                     (JObj [(''title'', JStr ''Engineer''), (''location'', JNull), (''listed'', JNull),
                            (''jobUrl'', JNull)])))])
   \<and> fst (get_jobs_company env0 (world_with hiring)
            \<lparr>q_url = Some ''https://example.com/company/acme'', q_login = None, q_days = None\<rparr> 0) =
       Json 200 (JObj [(''url'', JStr ''https://example.com/company/acme/jobs/''),
                  (''scrapedAt'', JStr ''2024-03-21T05:46:40.000Z''),
                  (''jobs'', JArr (replicate 50
                     (JObj [(''title'', JStr ''Engineer''), (''location'', JNull), (''listed'', JNull),
                            (''jobUrl'', JNull)])))])
   \<and> fst (scrapeCompanyJobs env_email (signed_out hiring) (Some ''https://example.com/company/acme'') True) =
       Inr (JObj [(''url'', JStr ''https://example.com/company/acme/jobs/''),
                  (''scrapedAt'', JStr ''2024-03-21T05:46:40.000Z''),
                  (''jobs'', JArr (replicate 50
                     (JObj [(''title'', JStr ''Engineer''), (''location'', JNull), (''listed'', JNull),
                            (''jobUrl'', JNull)])))])"
proof -
  let ?q = "\<lparr>q_url = Some ''https://example.com/company/acme'', q_login = None, q_days = None\<rparr>"
  have h': "(\<forall>p. throws (signed_out hiring) p = None)
      \<and> (True \<longrightarrow> login_passes env_email (signed_out hiring))"
    by (simp add: signed_out_def hiring_def calm_def login_passes_def env_email_def env0_def)
  have v': "JObj [(''url'', JStr (with_slash ''https://example.com/company/acme'' @ ''jobs/'')),
                 (''scrapedAt'', JStr (stamp (signed_out hiring))),
                 (''jobs'', JArr (map job_json (take 50 (cards (signed_out hiring)))))] =
      JObj [(''url'', JStr ''https://example.com/company/acme/jobs/''),
            (''scrapedAt'', JStr ''2024-03-21T05:46:40.000Z''),
            (''jobs'', JArr (replicate 50
               (JObj [(''title'', JStr ''Engineer''), (''location'', JNull), (''listed'', JNull),
                      (''jobUrl'', JNull)])))]"
    by (simp add: signed_out_def hiring_def calm_def job_json_def js_or_def obj_def with_slash_def)
  note t' = jobs_capped [where b = "signed_out hiring" and e = env_email
      and u = "''https://example.com/company/acme''" and login = True, unfolded v']
  from t' h' have signed: "fst (scrapeCompanyJobs env_email (signed_out hiring)
        (Some ''https://example.com/company/acme'') True) =
       Inr (JObj [(''url'', JStr ''https://example.com/company/acme/jobs/''),
                  (''scrapedAt'', JStr ''2024-03-21T05:46:40.000Z''),
                  (''jobs'', JArr (replicate 50
                     (JObj [(''title'', JStr ''Engineer''), (''location'', JNull), (''listed'', JNull),
                            (''jobUrl'', JNull)])))])" by blast
  have n: "length (cards hiring) = 60" by (simp add: hiring_def)
  have h: "(\<forall>p. throws hiring p = None) \<and> (False \<longrightarrow> login_passes env0 hiring)
      \<and> (want_login env0 (q_login ?q = Some ''1'') \<longrightarrow> login_passes env0 hiring)
      \<and> w_browser (world_with hiring) = hiring \<and> launch hiring = None
      \<and> q_url ?q = Some ''https://example.com/company/acme''
      \<and> ''https://example.com/company/acme'' \<noteq> []"
    by (simp add: hiring_def calm_def want_login_def env0_def world_with_def)
  have v: "JObj [(''url'', JStr (with_slash ''https://example.com/company/acme'' @ ''jobs/'')),
                 (''scrapedAt'', JStr (stamp hiring)),
                 (''jobs'', JArr (map job_json (take 50 (cards hiring))))] =
      JObj [(''url'', JStr ''https://example.com/company/acme/jobs/''),
            (''scrapedAt'', JStr ''2024-03-21T05:46:40.000Z''),
            (''jobs'', JArr (replicate 50
               (JObj [(''title'', JStr ''Engineer''), (''location'', JNull), (''listed'', JNull),
                      (''jobUrl'', JNull)])))]"
    by (simp add: hiring_def calm_def job_json_def js_or_def obj_def with_slash_def)
  note t = jobs_capped [where b = hiring and e = env0 and w = "world_with hiring" and q = ?q
      and u = "''https://example.com/company/acme''" and login = False and lastRun = 0,
      unfolded v]
  from t h have a: "fst (scrapeCompanyJobs env0 hiring (Some ''https://example.com/company/acme'') False) =
       Inr (JObj [(''url'', JStr ''https://example.com/company/acme/jobs/''),
                  (''scrapedAt'', JStr ''2024-03-21T05:46:40.000Z''),
                  (''jobs'', JArr (replicate 50
                     (JObj [(''title'', JStr ''Engineer''), (''location'', JNull), (''listed'', JNull),
                            (''jobUrl'', JNull)])))])" by blast
  from t h have "get_jobs_company env0 (world_with hiring) ?q 0 =
          (Json 200 (JObj [(''url'', JStr ''https://example.com/company/acme/jobs/''),
            (''scrapedAt'', JStr ''2024-03-21T05:46:40.000Z''),
            (''jobs'', JArr (replicate 50
               (JObj [(''title'', JStr ''Engineer''), (''location'', JNull), (''listed'', JNull),
                      (''jobUrl'', JNull)])))]),
           throttle env0 (w_tick (world_with hiring)) 0,
           Throttled (throttle env0 (w_tick (world_with hiring)) 0) # CreateBrowser
             # snd (scrapeCompanyJobs env0 hiring (Some ''https://example.com/company/acme'')
                      (want_login env0 (q_login ?q = Some ''1'')))
             @ [CloseBrowser])" by blast
  then have b: "fst (get_jobs_company env0 (world_with hiring) ?q 0) =
       Json 200 (JObj [(''url'', JStr ''https://example.com/company/acme/jobs/''),
                  (''scrapedAt'', JStr ''2024-03-21T05:46:40.000Z''),
                  (''jobs'', JArr (replicate 50
                     (JObj [(''title'', JStr ''Engineer''), (''location'', JNull), (''listed'', JNull),
                            (''jobUrl'', JNull)])))])" by (simp only: fst_conv)
  from n a b signed show ?thesis by blast
qed

subsection \<open>C10: when the login flow is asked for\<close>

text \<open>
  C10 as stated fails: with \<^verbatim>\<open>LINKEDIN_EMAIL\<close> set to the empty string and
  \<^verbatim>\<open>login=0\<close>, \<^verbatim>\<open>Boolean(process.env.LINKEDIN_EMAIL)\<close> is false, the scraper
  is entered with \<^verbatim>\<open>login: false\<close> and \<^verbatim>\<open>ensureLogin\<close> never runs.
\<close>

theorem login_flag_counterexample:
  "LINKEDIN_EMAIL (env0\<lparr>LINKEDIN_EMAIL := Some []\<rparr>) = Some []
   \<and> snd (snd (get_profile (env0\<lparr>LINKEDIN_EMAIL := Some []\<rparr>) world0
         \<lparr>q_url = Some ''https://example.com/in/x'', q_login = Some ''0'', q_days = None\<rparr> 0))
     = [Throttled 1711000000000, CreateBrowser,
        Call ScrapeProfile (Some ''https://example.com/in/x'') None False,
        PageOp NewPage, PageOp (Goto (Some ''https://example.com/in/x'')),
        PageOp (WaitForTimeout 1200), PageOp Content, PageOp AutoScroll, PageOp Evaluate,
        PageOp ClosePage, CloseBrowser]"
  by (simp add: run_simps)

text \<open>
  C10 (amended). Whenever \<^verbatim>\<open>LINKEDIN_EMAIL\<close> is set to a non-empty string, or
  the request has \<^verbatim>\<open>login=1\<close> (the task has \<^verbatim>\<open>login: 1\<close>), every scraper a
  single-task endpoint or a turn of the queue enters is entered with
  \<^verbatim>\<open>login: true\<close>; it is entered when the url is present (the type is one of
  the five) and the browser has launched; and a scraper entered with
  \<^verbatim>\<open>login: true\<close> runs \<^verbatim>\<open>ensureLogin\<close> once the page is open and its user agent
  and proxy credentials are set.
\<close>

theorem login_requested:
  "(truthy (LINKEDIN_EMAIL e) \<or> q_login q = Some ''1'' \<longrightarrow>
      (\<forall>ev \<in> set (snd (snd (get_profile e w q lastRun))). is_call ev \<longrightarrow>
          ev = Call ScrapeProfile (q_url q) None True)
    \<and> (\<forall>ev \<in> set (snd (snd (get_profile_posts e d w q lastRun))). is_call ev \<longrightarrow>
          ev = Call ScrapeProfilePosts (q_url q) (Some (case q_days q of None \<Rightarrow> Num 30 | Some n \<Rightarrow> n)) True)
    \<and> (\<forall>ev \<in> set (snd (snd (get_company e w q lastRun))). is_call ev \<longrightarrow>
          ev = Call ScrapeCompany (q_url q) None True)
    \<and> (\<forall>ev \<in> set (snd (snd (get_company_posts e d w q lastRun))). is_call ev \<longrightarrow>
          ev = Call ScrapeCompanyPosts (q_url q) (Some (case q_days q of None \<Rightarrow> Num 30 | Some n \<Rightarrow> n)) True)
    \<and> (\<forall>ev \<in> set (snd (snd (get_jobs_company e w q lastRun))). is_call ev \<longrightarrow>
          ev = Call ScrapeCompanyJobs (q_url q) None True)
    \<and> (truthy (q_url q) \<and> launch (w_browser w) = None \<longrightarrow>
          Call ScrapeProfile (q_url q) None True \<in> set (snd (snd (get_profile e w q lastRun)))
        \<and> Call ScrapeProfilePosts (q_url q) (Some (case q_days q of None \<Rightarrow> Num 30 | Some n \<Rightarrow> n)) True
            \<in> set (snd (snd (get_profile_posts e d w q lastRun)))
        \<and> Call ScrapeCompany (q_url q) None True \<in> set (snd (snd (get_company e w q lastRun)))
        \<and> Call ScrapeCompanyPosts (q_url q) (Some (case q_days q of None \<Rightarrow> Num 30 | Some n \<Rightarrow> n)) True
            \<in> set (snd (snd (get_company_posts e d w q lastRun)))
        \<and> Call ScrapeCompanyJobs (q_url q) None True
            \<in> set (snd (snd (get_jobs_company e w q lastRun)))))
   \<and> (truthy (LINKEDIN_EMAIL e) \<or> t_login tsk = Some 1 \<longrightarrow>
      (\<forall>ev \<in> set (snd (snd (queue_task e d w stream tsk lastRun))).
          is_call ev \<longrightarrow> (\<exists>k u n. ev = Call k u n True))
    \<and> (launch (w_browser w) = None
          \<and> t_type tsk \<in> {Some ''profile'', Some ''profile_posts'', Some ''company'',
                            Some ''company_posts'', Some ''jobs_company''} \<longrightarrow>
        (\<exists>k n. Call k (t_url tsk) n True \<in> set (snd (snd (queue_task e d w stream tsk lastRun))))))
   \<and> (throws b NewPage = None \<and> (\<forall>ua. throws b (SetUserAgent ua) = None)
        \<and> (\<forall>u p. throws b (Authenticate u p) = None) \<longrightarrow>
      EnsureLogin \<in> set (snd (scrapeProfile e b url True))
    \<and> EnsureLogin \<in> set (snd (scrapeProfilePosts e d b url days True))
    \<and> EnsureLogin \<in> set (snd (scrapeCompany e b url True))
    \<and> EnsureLogin \<in> set (snd (scrapeCompanyPosts e d b url days True))
    \<and> EnsureLogin \<in> set (snd (scrapeCompanyJobs e b url True)))"
proof (intro conjI impI)
  assume h: "truthy (LINKEDIN_EMAIL e) \<or> q_login q = Some ''1''"
  then have l: "want_login e (q_login q = Some ''1'') = True"
    by (auto simp: want_login_def)
  note s =
    single_task_calls(1) [where e = e and w = w and q = q and lastRun = lastRun, unfolded l]
    single_task_calls(2) [where e = e and d = d and w = w and q = q and lastRun = lastRun, unfolded l]
    single_task_calls(3) [where e = e and w = w and q = q and lastRun = lastRun, unfolded l]
    single_task_calls(4) [where e = e and d = d and w = w and q = q and lastRun = lastRun, unfolded l]
    single_task_calls(5) [where e = e and w = w and q = q and lastRun = lastRun, unfolded l]
  show "\<forall>ev \<in> set (snd (snd (get_profile e w q lastRun))). is_call ev \<longrightarrow>
          ev = Call ScrapeProfile (q_url q) None True"
    using s(1) by (rule conjunct1)
  show "\<forall>ev \<in> set (snd (snd (get_profile_posts e d w q lastRun))). is_call ev \<longrightarrow>
          ev = Call ScrapeProfilePosts (q_url q) (Some (case q_days q of None \<Rightarrow> Num 30 | Some n \<Rightarrow> n)) True"
    using s(2) by (rule conjunct1)
  show "\<forall>ev \<in> set (snd (snd (get_company e w q lastRun))). is_call ev \<longrightarrow>
          ev = Call ScrapeCompany (q_url q) None True"
    using s(3) by (rule conjunct1)
  show "\<forall>ev \<in> set (snd (snd (get_company_posts e d w q lastRun))). is_call ev \<longrightarrow>
          ev = Call ScrapeCompanyPosts (q_url q) (Some (case q_days q of None \<Rightarrow> Num 30 | Some n \<Rightarrow> n)) True"
    using s(4) by (rule conjunct1)
  show "\<forall>ev \<in> set (snd (snd (get_jobs_company e w q lastRun))). is_call ev \<longrightarrow>
          ev = Call ScrapeCompanyJobs (q_url q) None True"
    using s(5) by (rule conjunct1)
  assume u: "truthy (q_url q) \<and> launch (w_browser w) = None"
  show "Call ScrapeProfile (q_url q) None True \<in> set (snd (snd (get_profile e w q lastRun)))"
    using s(1) u by blast
  show "Call ScrapeProfilePosts (q_url q) (Some (case q_days q of None \<Rightarrow> Num 30 | Some n \<Rightarrow> n)) True
            \<in> set (snd (snd (get_profile_posts e d w q lastRun)))"
    using s(2) u by blast
  show "Call ScrapeCompany (q_url q) None True \<in> set (snd (snd (get_company e w q lastRun)))"
    using s(3) u by blast
  show "Call ScrapeCompanyPosts (q_url q) (Some (case q_days q of None \<Rightarrow> Num 30 | Some n \<Rightarrow> n)) True
            \<in> set (snd (snd (get_company_posts e d w q lastRun)))"
    using s(4) u by blast
  show "Call ScrapeCompanyJobs (q_url q) None True
            \<in> set (snd (snd (get_jobs_company e w q lastRun)))"
    using s(5) u by blast
next
  assume h: "truthy (LINKEDIN_EMAIL e) \<or> t_login tsk = Some 1"
  then have l: "want_login e (t_login tsk = Some 1) = True"
    by (auto simp: want_login_def)
  note s = queue_task_calls [where e = e and d = d and w = w and stream = stream and tsk = tsk
      and lastRun = lastRun, unfolded l]
  show "\<forall>ev \<in> set (snd (snd (queue_task e d w stream tsk lastRun))).
          is_call ev \<longrightarrow> (\<exists>k u n. ev = Call k u n True)"
    using s by (rule conjunct1)
  assume "launch (w_browser w) = None
          \<and> t_type tsk \<in> {Some ''profile'', Some ''profile_posts'', Some ''company'',
                            Some ''company_posts'', Some ''jobs_company''}"
  with s show "\<exists>k n. Call k (t_url tsk) n True \<in> set (snd (snd (queue_task e d w stream tsk lastRun)))"
    by blast
next
  assume a: "throws b NewPage = None \<and> (\<forall>ua. throws b (SetUserAgent ua) = None)
        \<and> (\<forall>u p. throws b (Authenticate u p) = None)"
  then have a1: "throws b NewPage = None" and a2: "\<forall>ua. throws b (SetUserAgent ua) = None"
    and a3: "\<forall>u p. throws b (Authenticate u p) = None" by blast+
  note le = login_engaged [OF a1 a2 a3]
  show "EnsureLogin \<in> set (snd (scrapeProfile e b url True))" by (rule le(1))
  show "EnsureLogin \<in> set (snd (scrapeProfilePosts e d b url days True))" by (rule le(2))
  show "EnsureLogin \<in> set (snd (scrapeCompany e b url True))" by (rule le(3))
  show "EnsureLogin \<in> set (snd (scrapeCompanyPosts e d b url days True))" by (rule le(4))
  show "EnsureLogin \<in> set (snd (scrapeCompanyJobs e b url True))" by (rule le(5))
qed

theorem login_requested_witness:
  "Call ScrapeProfile (Some ''https://example.com/in/x'') None True
     \<in> set (snd (snd (get_profile env_email world0
          \<lparr>q_url = Some ''https://example.com/in/x'', q_login = Some ''0'', q_days = None\<rparr> 0)))
   \<and> EnsureLogin \<in> set (snd (scrapeProfile env_email calm (Some ''https://example.com/in/x'') True))"
proof -
  let ?q = "\<lparr>q_url = Some ''https://example.com/in/x'', q_login = Some ''0'', q_days = None\<rparr>"
  note c = login_requested [where e = env_email and w = world0 and q = ?q and lastRun = 0
      and b = calm and url = "Some ''https://example.com/in/x''"]
  have h: "truthy (LINKEDIN_EMAIL env_email) \<or> q_login ?q = Some ''1''"
    by (simp add: env_email_def env0_def)
  have u: "truthy (q_url ?q) \<and> launch (w_browser world0) = None"
    by (simp add: world0_def calm_def)
  have p: "throws calm NewPage = None \<and> (\<forall>ua. throws calm (SetUserAgent ua) = None)
        \<and> (\<forall>u p. throws calm (Authenticate u p) = None)"
    by (simp add: calm_def)
  from c h u have "Call ScrapeProfile (q_url ?q) None True
      \<in> set (snd (snd (get_profile env_email world0 ?q 0)))" by blast
  moreover from c p
  have "EnsureLogin \<in> set (snd (scrapeProfile env_email calm (Some ''https://example.com/in/x'') True))"
    by blast
  ultimately show ?thesis by simp
qed

end
